theory Spec2Isabelle
  imports Main "HOL-Library.Word"
begin

section \<open>Python values used by \<open>modules/llama_cpp_python_hijack.py\<close>\<close>

text \<open>
  Exceptions are values. \<open>ModuleNotFoundError\<close> is Python's subclass of
  \<open>ImportError\<close>; the handler \<open>except ImportError\<close> catches both, and nothing else.
  \<open>PyException\<close> is the base class \<open>Exception\<close>, which the selector raises itself.
\<close>

datatype exn =
    ModuleNotFoundError string
  | ImportError string
  | AttributeError string
  | ValueError string
  | IndexError string
  | RuntimeError string
  | OverflowError string
  | PyException string

fun is_ImportError :: "exn \<Rightarrow> bool" where
  "is_ImportError (ModuleNotFoundError m) = True"
| "is_ImportError (ImportError m) = True"
| "is_ImportError e = False"

fun is_ModuleNotFoundError :: "exn \<Rightarrow> bool" where
  "is_ModuleNotFoundError (ModuleNotFoundError m) = True"
| "is_ModuleNotFoundError e = False"

fun is_AttributeError :: "exn \<Rightarrow> bool" where
  "is_AttributeError (AttributeError m) = True"
| "is_AttributeError e = False"

text \<open>
  Function objects that end up as attributes of the patched classes: a function of the
  imported library (named), or one of the three functions this module installs.
\<close>

datatype fn =
    Foreign string
  | eval_with_progress_fn
  | my_generate_fn
  | patched_init_fn

text \<open>
  The part of a library module object that the patch step reads and writes. An attribute
  that may be absent is an option: \<open>hasattr\<close> is \<open>\<noteq> None\<close>, \<open>getattr(c, '_is_patched', False)\<close>
  is the stored value or \<open>False\<close>, and reading an absent attribute of a class raises
  \<open>AttributeError\<close>. Looking up a name that the module itself does not define raises what the
  module's \<open>__getattr__\<close> raises for it, given by \<open>missing\<close>: \<open>AttributeError\<close> for an ordinary
  module, possibly another exception for a module that computes attributes on access.
\<close>

record llama_class =
  is_patched :: "bool option"
  eval :: "fn option"
  generate :: "fn option"
  original_generate :: "fn option"

record formatter_class =
  fmt_is_patched :: "bool option"
  fmt_init :: fn

record chat_format_module =
  Jinja2ChatFormatter :: "formatter_class option"

record lib =
  Llama :: "llama_class option"
  llama_chat_format :: "chat_format_module option"
  missing :: "string \<Rightarrow> exn"

section \<open>\<open>monkey_patch_llama_cpp_python\<close>\<close>

definition getattr_default :: "bool option \<Rightarrow> bool" where
  "getattr_default v = (case v of None \<Rightarrow> False | Some b \<Rightarrow> b)"

text \<open>
  The nested block that patches \<open>Jinja2ChatFormatter.__init__\<close>, when the class is there.
  \<open>hasattr(lib, 'llama_chat_format')\<close> is false when the lookup raises \<open>AttributeError\<close>; any
  other exception that the lookup raises is raised by \<open>hasattr\<close> as well.
\<close>

definition patch_formatter :: "lib \<Rightarrow> exn option \<times> lib" where
  "patch_formatter l =
     (case llama_chat_format l of
        None \<Rightarrow>
          if is_AttributeError (missing l ''llama_chat_format'') then (None, l)
          else (Some (missing l ''llama_chat_format''), l)
      | Some m \<Rightarrow>
          (case Jinja2ChatFormatter m of
             None \<Rightarrow> (None, l)
           | Some Formatter \<Rightarrow>
               if \<not> getattr_default (fmt_is_patched Formatter)
               then (None,
                     l\<lparr>llama_chat_format :=
                         Some (m\<lparr>Jinja2ChatFormatter :=
                                   Some (Formatter\<lparr>fmt_init := patched_init_fn,
                                                    fmt_is_patched := Some True\<rparr>)\<rparr>)\<rparr>)
               else (None, l)))"

text \<open>
  The patch step mutates the module object in place, so the model returns the object as
  it is when the call ends, together with the exception raised (if any). The three
  assignments run in the source's order: \<open>eval\<close> is already replaced when reading
  \<open>lib.Llama.generate\<close> fails, and the marker is set last.
\<close>

definition monkey_patch_llama_cpp_python :: "lib \<Rightarrow> exn option \<times> lib" where
  "monkey_patch_llama_cpp_python l =
     (case Llama l of
        None \<Rightarrow> (Some (missing l ''Llama''), l)
      | Some c \<Rightarrow>
          if getattr_default (is_patched c) then (None, l)
          else
            let c1 = c\<lparr>eval := Some eval_with_progress_fn\<rparr> in
            (case generate c1 of
               None \<Rightarrow> (Some (AttributeError ''generate''), l\<lparr>Llama := Some c1\<rparr>)
             | Some g \<Rightarrow>
                 let c2 = c1\<lparr>original_generate := Some g\<rparr>;
                     c3 = c2\<lparr>generate := Some my_generate_fn\<rparr>
                 in (case patch_formatter (l\<lparr>Llama := Some c3\<rparr>) of
                       (Some e, l1) \<Rightarrow> (Some e, l1)
                     | (None, l1) \<Rightarrow>
                         (None, l1\<lparr>Llama := Some (c3\<lparr>is_patched := Some True\<rparr>)\<rparr>))))"

section \<open>The library selector \<open>llama_cpp_lib\<close>\<close>

text \<open>
  What a call reads from outside the module: the platform, the flags of \<open>shared.args\<close>
  (by attribute name), and what executing a module's code does when it is imported for
  the first time.
\<close>

record world =
  is_macos :: bool
  args :: "string \<Rightarrow> bool"
  loader :: "string \<Rightarrow> exn + lib"

text \<open>
  A handle is a reference to a module object; the objects live in \<open>sys_modules\<close>, Python's
  table of imported modules, under their names. \<open>trace\<close> is a ghost field: the calls of
  \<open>importlib.import_module\<close> and the module loads, in order.
\<close>

type_synonym handle = string

datatype event = ImportAttempt string | ModuleLoaded string

record process =
  imported_module :: "string option"
  not_available_modules :: "string set"
  sys_modules :: "string \<rightharpoonup> lib"
  trace :: "event list"

definition lib_names :: "world \<Rightarrow> (string option \<times> string) list" where
  "lib_names w =
     (if is_macos w then
        [(None, ''llama_cpp'')]
      else
        [(Some ''cpu'', ''llama_cpp''),
         (Some ''tensorcores'', ''llama_cpp_cuda_tensorcores''),
         (None, ''llama_cpp_cuda''),
         (None, ''llama_cpp'')])"

definition should_import :: "world \<Rightarrow> string option \<Rightarrow> bool" where
  "should_import w arg = (case arg of None \<Rightarrow> True | Some a \<Rightarrow> args w a)"

text \<open>\<open>imported_module and imported_module != lib_name\<close>: \<open>None\<close> and \<open>''\<close> are falsy.\<close>

fun conflicting :: "string option \<Rightarrow> string \<Rightarrow> bool" where
  "conflicting None lib_name = False"
| "conflicting (Some m) lib_name = (m \<noteq> [] \<and> m \<noteq> lib_name)"

fun py_str :: "string option \<Rightarrow> string" where
  "py_str None = ''None''"
| "py_str (Some m) = m"

definition conflict_message :: "string \<Rightarrow> string option \<Rightarrow> string" where
  "conflict_message lib_name imported =
     ''Cannot import `'' @ lib_name @ ''` because `'' @ py_str imported @
     ''` is already imported. Switching to a different version of llama-cpp-python currently requires a server restart.''"

text \<open>
  \<open>importlib.import_module\<close>: a module already in \<open>sys.modules\<close> is returned as it is;
  otherwise its code runs once, and the module is entered in the table when that succeeds.
\<close>

definition import_module :: "world \<Rightarrow> process \<Rightarrow> string \<Rightarrow> (exn + lib) \<times> process" where
  "import_module w s name =
     (let s1 = s\<lparr>trace := trace s @ [ImportAttempt name]\<rparr> in
      case sys_modules s1 name of
        Some l \<Rightarrow> (Inr l, s1)
      | None \<Rightarrow>
          (case loader w name of
             Inl e \<Rightarrow> (Inl e, s1)
           | Inr l \<Rightarrow>
               (Inr l, s1\<lparr>sys_modules := (sys_modules s1)(name \<mapsto> l),
                          trace := trace s1 @ [ModuleLoaded name]\<rparr>)))"

text \<open>
  The body of the \<open>try\<close> block: import, set the marker, patch, return the handle. The
  patched module object is written back under its name, as the mutation in place does.
\<close>

definition try_body :: "world \<Rightarrow> process \<Rightarrow> string \<Rightarrow> (exn + handle) \<times> process" where
  "try_body w s lib_name =
     (case import_module w s lib_name of
        (Inl e, s1) \<Rightarrow> (Inl e, s1)
      | (Inr return_lib, s1) \<Rightarrow>
          let s2 = s1\<lparr>imported_module := Some lib_name\<rparr>;
              (r, patched) = monkey_patch_llama_cpp_python return_lib;
              s3 = s2\<lparr>sys_modules := (sys_modules s2)(lib_name \<mapsto> patched)\<rparr>
          in (case r of Some e \<Rightarrow> (Inl e, s3) | None \<Rightarrow> (Inr lib_name, s3)))"

text \<open>The \<open>for\<close> loop over the candidates; \<open>Inr None\<close> is the final \<open>return None\<close>.\<close>

fun import_loop ::
  "world \<Rightarrow> process \<Rightarrow> (string option \<times> string) list \<Rightarrow> (exn + handle option) \<times> process" where
  "import_loop w s [] = (Inr None, s)"
| "import_loop w s ((arg, lib_name) # rest) =
     (if lib_name \<in> not_available_modules s then import_loop w s rest
      else if should_import w arg then
        (if conflicting (imported_module s) lib_name
         then (Inl (PyException (conflict_message lib_name (imported_module s))), s)
         else
           (case try_body w s lib_name of
              (Inr return_lib, s') \<Rightarrow> (Inr (Some return_lib), s')
            | (Inl e, s') \<Rightarrow>
                if is_ImportError e
                then import_loop w
                       (s'\<lparr>not_available_modules := insert lib_name (not_available_modules s')\<rparr>)
                       rest
                else (Inl e, s')))
      else import_loop w s rest)"

definition llama_cpp_lib :: "world \<Rightarrow> process \<Rightarrow> (exn + handle option) \<times> process" where
  "llama_cpp_lib w s = import_loop w s (lib_names w)"

text \<open>A sequence of calls in one process, each with the configuration of its moment.\<close>

fun calls :: "world list \<Rightarrow> process \<Rightarrow> (exn + handle option) list \<times> process" where
  "calls [] s = ([], s)"
| "calls (w # ws) s =
     (case llama_cpp_lib w s of
        (r, s1) \<Rightarrow> (case calls ws s1 of (rs, s2) \<Rightarrow> (r # rs, s2)))"

definition run :: "world list \<Rightarrow> process \<Rightarrow> process" where
  "run ws s = snd (calls ws s)"

text \<open>
  The variant a call selects: the name of the first candidate that is neither in the
  unavailable set nor ineligible under the flags.
\<close>

definition selected :: "world \<Rightarrow> process \<Rightarrow> string option" where
  "selected w s =
     map_option snd
       (find (\<lambda>(arg, name). name \<notin> not_available_modules s \<and> should_import w arg) (lib_names w))"

text \<open>
  Two predicates on process states used in the proofs: the marker is not the empty string
  (which Python would treat as unset), and the variant \<open>h\<close> is the loaded one, with its
  module in the table of loaded modules and already patched.
\<close>

definition marker_wf :: "process \<Rightarrow> bool" where
  "marker_wf s = (imported_module s \<noteq> Some [])"

definition loaded_and_patched :: "process \<Rightarrow> string \<Rightarrow> bool" where
  "loaded_and_patched s h =
     (imported_module s = Some h \<and>
      (case sys_modules s h of
         None \<Rightarrow> False
       | Some l \<Rightarrow> (case Llama l of None \<Rightarrow> False | Some c \<Rightarrow> getattr_default (is_patched c))))"

section \<open>\<open>eval_with_progress\<close>\<close>

text \<open>
  Python's slice \<open>xs[start:stop]\<close> of a sequence, with negative bounds counted from the end.
\<close>

definition py_slice :: "'a list \<Rightarrow> int \<Rightarrow> int \<Rightarrow> 'a list" where
  "py_slice xs start stop =
     (let n = int (length xs);
          lo = (if start < 0 then max 0 (start + n) else min start n);
          hi = (if stop < 0 then max 0 (stop + n) else min stop n)
      in take (nat (hi - lo)) (drop (nat lo) xs))"

text \<open>
  \<open>range(0, stop, step)\<close>: the values \<open>range\<close> yields from \<open>i\<close> on, for a positive step; a
  zero step raises \<open>ValueError\<close> and a negative step yields nothing.
\<close>

function range_from :: "nat \<Rightarrow> nat \<Rightarrow> nat \<Rightarrow> nat list" where
  "range_from i stop step =
     (if 0 < step \<and> i < stop then i # range_from (i + step) stop step else [])"
  by pat_completeness auto
termination
  by (relation "measure (\<lambda>(i, stop, step). stop - i)") auto

declare range_from.simps [simp del]

definition py_range :: "nat \<Rightarrow> int \<Rightarrow> exn + nat list" where
  "py_range stop step =
     (if step = 0 then Inl (ValueError ''range() arg 3 must not be zero'')
      else if step < 0 then Inr []
      else Inr (range_from 0 stop (nat step)))"

text \<open>
  \<open>self.input_ids\<close> and \<open>self.scores\<close> are NumPy arrays of the library's \<open>Llama\<close> object (the
  function reads \<open>self.scores.shape\<close>): their size is fixed. \<open>a[start:stop] = vals\<close> on a
  one-dimensional array clips the slice to the array, then writes \<open>vals\<close> when the lengths
  agree, fills the slice with the single element of a one-element \<open>vals\<close> (broadcasting, also
  into an empty slice), and raises \<open>ValueError\<close> otherwise.
\<close>

definition np_setslice :: "'a list \<Rightarrow> nat \<Rightarrow> nat \<Rightarrow> 'a list \<Rightarrow> exn + 'a list" where
  "np_setslice a start stop vals =
     (let lo = min start (length a);
          hi = max lo (min stop (length a));
          k = hi - lo
      in if length vals = k then Inr (take lo a @ vals @ drop hi a)
         else if length vals = 1 then Inr (take lo a @ replicate k (hd vals) @ drop hi a)
         else Inl (ValueError ''could not broadcast input array''))"

text \<open>
  A two-dimensional array in row-major order: \<open>shape0\<close> rows of \<open>shape1\<close> cells. The element
  type \<open>'v\<close> stands for the logits, which the function only copies.
\<close>

record 'v ndarray =
  shape0 :: nat
  shape1 :: nat
  cells :: "'v list"

text \<open>
  \<open>a[start:stop, :].reshape(-1)[::] = vals\<close> writes through a flat view of the rows
  \<open>start..stop\<close> (clipped to the array); \<open>a[idx, :] = vals\<close> writes row \<open>idx\<close>, where a negative
  index counts from the last row and an index outside the array raises \<open>IndexError\<close>.
\<close>

definition np_setrows :: "'v ndarray \<Rightarrow> nat \<Rightarrow> nat \<Rightarrow> 'v list \<Rightarrow> exn + 'v ndarray" where
  "np_setrows a start stop vals =
     (let lo = min start (shape0 a);
          hi = max lo (min stop (shape0 a))
      in case np_setslice (cells a) (lo * shape1 a) (hi * shape1 a) vals of
           Inl e \<Rightarrow> Inl e
         | Inr cs \<Rightarrow> Inr (a\<lparr>cells := cs\<rparr>))"

definition np_setrow :: "'v ndarray \<Rightarrow> int \<Rightarrow> 'v list \<Rightarrow> exn + 'v ndarray" where
  "np_setrow a idx vals =
     (let R = int (shape0 a) in
      if idx < - R \<or> R \<le> idx then Inl (IndexError ''index is out of bounds for axis 0'')
      else
        let r = nat (if idx < 0 then idx + R else idx) in
        case np_setslice (cells a) (r * shape1 a) (r * shape1 a + shape1 a) vals of
          Inl e \<Rightarrow> Inl e
        | Inr cs \<Rightarrow> Inr (a\<lparr>cells := cs\<rparr>))"

text \<open>
  The native context behind \<open>self._ctx\<close> and \<open>self._batch\<close> is a parameter: given the
  batches decoded so far (with their positions), whether \<open>decode\<close> raises, and the buffer
  \<open>get_logits\<close> points to. \<open>kv_cache_seq_rm\<close> changes nothing that the function reads back.
\<close>

text \<open>
  \<open>self.input_ids\<close> has the element type \<open>np.intc\<close>, a signed 32-bit integer. The values
  assigned to it are converted first: a Python integer outside the range of \<open>int32\<close> raises
  \<open>OverflowError\<close>, whatever the slice is.
\<close>

definition to_intc :: "int list \<Rightarrow> exn + 32 word list" where
  "to_intc xs =
     (if list_all (\<lambda>x. - (2 ^ 31) \<le> x \<and> x < 2 ^ 31) xs then Inr (map word_of_int xs)
      else Inl (OverflowError ''Python integer out of bounds for int32''))"

record 'v native =
  decode_error :: "(nat \<times> int list) list \<Rightarrow> exn option"
  get_logits :: "(nat \<times> int list) list \<Rightarrow> nat \<Rightarrow> 'v"

text \<open>
  The fields of \<open>self\<close> that the function uses. \<open>n_tokens\<close> is a count of tokens. \<open>decoded\<close>
  is a ghost field: the batches handed to \<open>set_batch\<close> and \<open>decode\<close>, with \<open>n_past\<close>, in order.
\<close>

record 'v llama =
  n_tokens :: nat
  n_batch :: int
  logits_all :: bool
  n_vocab :: nat
  input_ids :: "32 word list"
  scores :: "'v ndarray"
  last_updated_index :: int
  decoded :: "(nat \<times> int list) list"

definition as_array :: "(nat \<Rightarrow> 'v) \<Rightarrow> nat \<Rightarrow> 'v list" where
  "as_array buf len = map buf [0 ..< len]"

text \<open>One iteration of the \<open>for\<close> loop, for the start index \<open>i\<close>.\<close>

definition eval_batch :: "'v native \<Rightarrow> int list \<Rightarrow> nat \<Rightarrow> 'v llama \<Rightarrow> exn option \<times> 'v llama" where
  "eval_batch nv tokens i s =
     (let batch = py_slice tokens (int i) (min (int (length tokens)) (int i + n_batch s));
          n_past = n_tokens s;
          n = length batch;
          s1 = s\<lparr>decoded := decoded s @ [(n_past, batch)]\<rparr>
      in case decode_error nv (decoded s1) of
           Some e \<Rightarrow> (Some e, s1)
         | None \<Rightarrow>
             (case to_intc batch of
                Inl e \<Rightarrow> (Some e, s1)
              | Inr vals \<Rightarrow>
             (case np_setslice (input_ids s1) n_past (n_past + n) vals of
                Inl e \<Rightarrow> (Some e, s1)
              | Inr ids \<Rightarrow>
                  let s2 = s1\<lparr>input_ids := ids\<rparr> in
                  if logits_all s2 then
                    let rows = n;
                        cols = n_vocab s2;
                        logits = as_array (get_logits nv (decoded s2)) (rows * cols)
                    in (case np_setrows (scores s2) n_past (n_past + n) logits of
                          Inl e \<Rightarrow> (Some e, s2)
                        | Inr sc \<Rightarrow>
                            (None, s2\<lparr>scores := sc,
                                      last_updated_index := int n_past + int n - 1,
                                      n_tokens := n_tokens s2 + n\<rparr>))
                  else
                    let rows = 1;
                        cols = n_vocab s2;
                        logits = as_array (get_logits nv (decoded s2)) (rows * cols);
                        last_token_index =
                          min (int n_past + int n - 1) (int (shape0 (scores s2)) - 1)
                    in (case np_setrow (scores s2) last_token_index logits of
                          Inl e \<Rightarrow> (Some e, s2)
                        | Inr sc \<Rightarrow>
                            (None, s2\<lparr>scores := sc,
                                      last_updated_index := last_token_index,
                                      n_tokens := n_tokens s2 + n\<rparr>)))))"

fun eval_loop :: "'v native \<Rightarrow> int list \<Rightarrow> nat list \<Rightarrow> 'v llama \<Rightarrow> exn option \<times> 'v llama" where
  "eval_loop nv tokens [] s = (None, s)"
| "eval_loop nv tokens (i # progress_bar) s =
     (case eval_batch nv tokens i s of
        (Some e, s') \<Rightarrow> (Some e, s')
      | (None, s') \<Rightarrow> eval_loop nv tokens progress_bar s')"

text \<open>
  The progress bar of \<open>tqdm\<close> iterates over the same \<open>range\<close> as the plain loop, so both
  branches of the \<open>if\<close> give the same list of start indices.
\<close>

definition eval_with_progress :: "'v native \<Rightarrow> int list \<Rightarrow> 'v llama \<Rightarrow> exn option \<times> 'v llama" where
  "eval_with_progress nv tokens s =
     (case py_range (length tokens) (n_batch s) of
        Inl e \<Rightarrow> (Some e, s)
      | Inr progress_bar \<Rightarrow> eval_loop nv tokens progress_bar s)"

text \<open>
  A \<open>scores\<close> array that the writes of a call over \<open>n\<close> tokens fit into: as many cells as its
  shape says, one column per vocabulary entry, and enough rows (all positions when
  \<open>logits_all\<close> is set, at least one row otherwise).
\<close>

definition scores_fit :: "'v llama \<Rightarrow> nat \<Rightarrow> bool" where
  "scores_fit s n =
     (length (cells (scores s)) = shape0 (scores s) * shape1 (scores s) \<and>
      shape1 (scores s) = n_vocab s \<and>
      (if logits_all s then n_tokens s + n \<le> shape0 (scores s) else 0 < shape0 (scores s)))"

section \<open>Configurations and states used in the examples\<close>

text \<open>
  An unpatched library module, the state of the module's globals when it is first imported
  (lines 11 and 12), Python installations given by the list of installed variants, and
  configurations given by platform, \<open>--cpu\<close> flag, \<open>--tensorcores\<close> flag and installation.
\<close>

definition fresh_lib :: lib where
  "fresh_lib =
     \<lparr>Llama = Some \<lparr>is_patched = None, eval = Some (Foreign ''eval''),
                     generate = Some (Foreign ''generate''), original_generate = None\<rparr>,
      llama_chat_format =
        Some \<lparr>Jinja2ChatFormatter =
                Some \<lparr>fmt_is_patched = None, fmt_init = Foreign ''__init__''\<rparr>\<rparr>,
      missing = AttributeError\<rparr>"

definition init_process :: process where
  "init_process =
     \<lparr>imported_module = None, not_available_modules = {}, sys_modules = Map.empty, trace = []\<rparr>"

definition installed :: "string list \<Rightarrow> string \<Rightarrow> exn + lib" where
  "installed ns n = (if n \<in> set ns then Inr fresh_lib else Inl (ModuleNotFoundError n))"

definition mk_world :: "bool \<Rightarrow> bool \<Rightarrow> bool \<Rightarrow> (string \<Rightarrow> exn + lib) \<Rightarrow> world" where
  "mk_world mac cpu tc ldr =
     \<lparr>is_macos = mac,
      args = (\<lambda>a. (a = ''cpu'' \<and> cpu) \<or> (a = ''tensorcores'' \<and> tc)),
      loader = ldr\<rparr>"

definition cuda_loaded :: process where
  "cuda_loaded = run [mk_world False False False (installed [''llama_cpp_cuda''])] init_process"

definition cpu_world :: world where
  "cpu_world = mk_world False True False (installed [''llama_cpp_cuda''])"

definition dll_world :: world where
  "dll_world =
     mk_world True False False (\<lambda>n. Inl (ImportError ''DLL load failed while importing llama_cpp''))"

definition runtime_world :: world where
  "runtime_world =
     mk_world True False False (\<lambda>n. Inl (RuntimeError ''Failed to load shared library''))"

definition no_class_world :: world where
  "no_class_world =
     mk_world True False False (\<lambda>n. Inr \<lparr>Llama = None, llama_chat_format = None, missing = AttributeError\<rparr>)"

definition lazy_world :: world where
  "lazy_world =
     mk_world True False False
       (\<lambda>n. Inr \<lparr>Llama = None, llama_chat_format = None,
                 missing = (\<lambda>n. ImportError ''No module named llama_cpp.llama'')\<rparr>)"

definition tc_world :: world where
  "tc_world = mk_world False False True (installed [''llama_cpp_cuda_tensorcores''])"

definition tc_loaded :: process where
  "tc_loaded = run [tc_world] init_process"

definition flags_off_world :: world where
  "flags_off_world = mk_world False False False (installed [''llama_cpp_cuda_tensorcores''])"

definition nothing_installed :: world where
  "nothing_installed = mk_world False True False (installed [])"

definition mac_world :: world where
  "mac_world = mk_world True False False (installed [''llama_cpp''])"

definition tc_world_uninstalled :: world where
  "tc_world_uninstalled = mk_world False False True (installed [])"

text \<open>
  A native context whose \<open>decode\<close> never fails, and a small \<open>Llama\<close> state: six slots in
  \<open>input_ids\<close>, a batch size of two, and a \<open>scores\<close> array of two rows.
\<close>

definition quiet_native :: "nat native" where
  "quiet_native = \<lparr>decode_error = (\<lambda>h. None), get_logits = (\<lambda>h j. length h * 100 + j)\<rparr>"

definition small_llama :: "nat llama" where
  "small_llama =
     \<lparr>n_tokens = 1, n_batch = 2, logits_all = False, n_vocab = 2,
      input_ids = [9, 0, 0, 0, 0, 0], scores = \<lparr>shape0 = 2, shape1 = 2, cells = [0, 0, 0, 0]\<rparr>,
      last_updated_index = 0, decoded = []\<rparr>"

definition full_llama :: "nat llama" where
  "full_llama = small_llama\<lparr>n_tokens := 6\<rparr>"

definition late_llama :: "nat llama" where
  "late_llama = small_llama\<lparr>n_tokens := 4\<rparr>"

definition rowless_llama :: "nat llama" where
  "rowless_llama = small_llama\<lparr>scores := \<lparr>shape0 = 0, shape1 = 2, cells = []\<rparr>\<rparr>"

lemmas eval_defs =
  llama_cpp_lib_def lib_names_def should_import_def try_body_def import_module_def
  monkey_patch_llama_cpp_python_def patch_formatter_def getattr_default_def
  conflict_message_def fresh_lib_def init_process_def installed_def mk_world_def Let_def

section \<open>Properties of the patch step\<close>

lemma getattr_default_simps [simp]:
  "getattr_default None = False" "getattr_default (Some b) = b"
  by (simp_all add: getattr_default_def)

lemma monkey_patch_done:
  "monkey_patch_llama_cpp_python l = (None, l1) \<Longrightarrow>
     \<exists>c1. Llama l1 = Some c1 \<and> getattr_default (is_patched c1)"
  by (auto simp: monkey_patch_llama_cpp_python_def Let_def
      split: option.splits if_splits prod.splits)

lemma monkey_patch_again:
  "Llama l1 = Some c1 \<Longrightarrow> getattr_default (is_patched c1) \<Longrightarrow>
     monkey_patch_llama_cpp_python l1 = (None, l1)"
  by (simp add: monkey_patch_llama_cpp_python_def)

lemma patch_formatter_Llama [simp]: "Llama (snd (patch_formatter l)) = Llama l"
  by (simp add: patch_formatter_def split: option.splits)

text \<open>
  Claim C5. When a first application of the patch step to a library has completed, a
  second application returns at once and leaves the library exactly as it is: the
  \<open>_is_patched\<close> marker is true, and for a library that was not patched before,
  \<open>original_generate\<close> is still the library's own \<open>generate\<close>, with \<open>generate\<close> and \<open>eval\<close>
  the replacements installed by the first application.
\<close>

theorem monkey_patch_idempotent:
  assumes "monkey_patch_llama_cpp_python l = (None, l1)"
  shows "monkey_patch_llama_cpp_python l1 = (None, l1) \<and>
         (\<exists>c1. Llama l1 = Some c1 \<and> getattr_default (is_patched c1)) \<and>
         (\<forall>c g. Llama l = Some c \<and> \<not> getattr_default (is_patched c) \<and> generate c = Some g \<longrightarrow>
            (\<exists>c2. Llama (snd (monkey_patch_llama_cpp_python l1)) = Some c2 \<and>
                  is_patched c2 = Some True \<and>
                  original_generate c2 = Some g \<and>
                  generate c2 = Some my_generate_fn \<and>
                  eval c2 = Some eval_with_progress_fn))"
proof -
  from monkey_patch_done [OF assms] obtain c1 where
    c1: "Llama l1 = Some c1" "getattr_default (is_patched c1)" by blast
  then have again: "monkey_patch_llama_cpp_python l1 = (None, l1)"
    by (rule monkey_patch_again)
  have "\<exists>c2. Llama l1 = Some c2 \<and> is_patched c2 = Some True \<and>
                  original_generate c2 = Some g \<and>
                  generate c2 = Some my_generate_fn \<and>
                  eval c2 = Some eval_with_progress_fn"
    if "Llama l = Some c" "\<not> getattr_default (is_patched c)" "generate c = Some g" for c g
    using assms that
    by (auto simp: monkey_patch_llama_cpp_python_def Let_def split: option.splits prod.splits)
  with c1 again show ?thesis by auto
qed

theorem monkey_patch_idempotent_witness:
  "monkey_patch_llama_cpp_python fresh_lib =
     (None,
      \<lparr>Llama = Some \<lparr>is_patched = Some True, eval = Some eval_with_progress_fn,
                      generate = Some my_generate_fn,
                      original_generate = Some (Foreign ''generate'')\<rparr>,
       llama_chat_format =
         Some \<lparr>Jinja2ChatFormatter =
                 Some \<lparr>fmt_is_patched = Some True, fmt_init = patched_init_fn\<rparr>\<rparr>,
       missing = AttributeError\<rparr>) \<and>
   monkey_patch_llama_cpp_python (snd (monkey_patch_llama_cpp_python fresh_lib)) =
     (None, snd (monkey_patch_llama_cpp_python fresh_lib)) \<and>
   (\<exists>c2. Llama (snd (monkey_patch_llama_cpp_python (snd (monkey_patch_llama_cpp_python fresh_lib))))
            = Some c2 \<and>
         original_generate c2 = Some (Foreign ''generate'') \<and> generate c2 = Some my_generate_fn)"
proof -
  let ?l1 = "\<lparr>Llama = Some \<lparr>is_patched = Some True, eval = Some eval_with_progress_fn,
                      generate = Some my_generate_fn,
                      original_generate = Some (Foreign ''generate'')\<rparr>,
       llama_chat_format =
         Some \<lparr>Jinja2ChatFormatter =
                 Some \<lparr>fmt_is_patched = Some True, fmt_init = patched_init_fn\<rparr>\<rparr>,
       missing = AttributeError\<rparr>"
  have h: "monkey_patch_llama_cpp_python fresh_lib = (None, ?l1)"
    by (simp add: eval_defs)
  have pre: "Llama fresh_lib = Some \<lparr>is_patched = None, eval = Some (Foreign ''eval''),
                     generate = Some (Foreign ''generate''), original_generate = None\<rparr> \<and>
             \<not> getattr_default (is_patched \<lparr>is_patched = None, eval = Some (Foreign ''eval''),
                     generate = Some (Foreign ''generate''), original_generate = None\<rparr>) \<and>
             generate \<lparr>is_patched = None, eval = Some (Foreign ''eval''),
                     generate = Some (Foreign ''generate''), original_generate = None\<rparr>
               = Some (Foreign ''generate'')"
    by (simp add: fresh_lib_def getattr_default_def)
  from monkey_patch_idempotent [OF h] pre h show ?thesis by simp
qed

section \<open>Properties of the selector\<close>

lemma import_module_marker [simp]:
  "imported_module (snd (import_module w s n)) = imported_module s"
  by (simp add: import_module_def Let_def split: option.splits sum.splits)

lemma import_module_na [simp]:
  "not_available_modules (snd (import_module w s n)) = not_available_modules s"
  by (simp add: import_module_def Let_def split: option.splits sum.splits)

lemma try_body_na [simp]:
  "not_available_modules (snd (try_body w s n)) = not_available_modules s"
proof -
  obtain r s1 where im: "import_module w s n = (r, s1)" by (cases "import_module w s n")
  then have "not_available_modules s1 = not_available_modules s"
    using import_module_na [of w s n] by simp
  with im show ?thesis
    by (simp add: try_body_def Let_def split: sum.splits prod.splits option.splits)
qed

lemma try_body_marker:
  "imported_module (snd (try_body w s n)) =
     (case fst (import_module w s n) of Inl e \<Rightarrow> imported_module s | Inr l \<Rightarrow> Some n)"
proof -
  obtain r s1 where im: "import_module w s n = (r, s1)" by (cases "import_module w s n")
  then have "imported_module s1 = imported_module s"
    using import_module_marker [of w s n] by simp
  with im show ?thesis
    by (simp add: try_body_def Let_def split: sum.splits prod.splits option.splits)
qed

lemma try_body_handle:
  "try_body w s n = (Inr h, s') \<Longrightarrow> h = n \<and> imported_module s' = Some n"
  by (auto simp: try_body_def Let_def split: sum.splits prod.splits option.splits)

lemma import_loop_conflict:
  assumes "imported_module s = Some m" and "m \<noteq> []"
    and "find (\<lambda>(arg, name). name \<notin> not_available_modules s \<and> should_import w arg) cands
           = Some (arg, lib_name)"
    and "lib_name \<noteq> m"
  shows "import_loop w s cands =
           (Inl (PyException (conflict_message lib_name (Some m))), s)"
  using assms
proof (induction cands)
  case Nil
  then show ?case by simp
next
  case (Cons c cands)
  obtain a n where c: "c = (a, n)" by (cases c)
  show ?case
  proof (cases "n \<notin> not_available_modules s \<and> should_import w a")
    case True
    with Cons.prems c have "a = arg" "n = lib_name" by simp_all
    with True Cons.prems c show ?thesis by simp
  next
    case False
    with Cons.prems c have "find (\<lambda>(arg, name). name \<notin> not_available_modules s \<and> should_import w arg) cands
           = Some (arg, lib_name)" by auto
    with Cons have "import_loop w s cands =
           (Inl (PyException (conflict_message lib_name (Some m))), s)" by blast
    with False c show ?thesis by auto
  qed
qed

lemma import_loop_marker_kept:
  "imported_module s = Some m \<Longrightarrow> m \<noteq> [] \<Longrightarrow>
     imported_module (snd (import_loop w s cands)) = Some m"
proof (induction cands arbitrary: s)
  case Nil
  then show ?case by simp
next
  case (Cons c cands)
  obtain a n where c: "c = (a, n)" by (cases c)
  obtain r s' where tb: "try_body w s n = (r, s')" by (cases "try_body w s n")
  show ?case
  proof (cases "n \<notin> not_available_modules s \<and> should_import w a")
    case False
    with Cons c show ?thesis by auto
  next
    case go: True
    show ?thesis
    proof (cases "n = m")
      case False
      with go Cons.prems c show ?thesis by simp
    next
      case True
      have "imported_module s' = Some m"
        using try_body_marker [of w s n] tb Cons.prems True by (simp split: sum.splits)
      then have cont: "imported_module (snd (import_loop w
          (s'\<lparr>not_available_modules := insert n (not_available_modules s')\<rparr>) cands)) = Some m"
        using Cons.IH Cons.prems by simp
      from go Cons.prems True c tb cont \<open>imported_module s' = Some m\<close> show ?thesis
        by (simp split: sum.splits)
    qed
  qed
qed

lemma import_loop_marker_from:
  "imported_module (snd (import_loop w s cands)) = imported_module s \<or>
   imported_module (snd (import_loop w s cands)) \<in> Some ` snd ` set cands"
proof (induction cands arbitrary: s)
  case Nil
  then show ?case by simp
next
  case (Cons c cands)
  obtain a n where c: "c = (a, n)" by (cases c)
  obtain r s' where tb: "try_body w s n = (r, s')" by (cases "try_body w s n")
  let ?s'' = "s'\<lparr>not_available_modules := insert n (not_available_modules s')\<rparr>"
  have m': "imported_module s' = imported_module s \<or> imported_module s' = Some n"
    using try_body_marker [of w s n] tb by (simp split: sum.splits)
  have ih1: "imported_module (snd (import_loop w s cands)) = imported_module s \<or>
   imported_module (snd (import_loop w s cands)) \<in> Some ` snd ` set cands"
    by (rule Cons.IH)
  have ih2: "imported_module (snd (import_loop w ?s'' cands)) = imported_module s' \<or>
   imported_module (snd (import_loop w ?s'' cands)) \<in> Some ` snd ` set cands"
    using Cons.IH [of ?s''] by simp
  show ?case
  proof (cases "n \<notin> not_available_modules s \<and> should_import w a")
    case False
    with ih1 c show ?thesis by auto
  next
    case go: True
    show ?thesis
    proof (cases "conflicting (imported_module s) n")
      case True
      with go c show ?thesis by simp
    next
      case False
      show ?thesis
      proof (cases r)
        case (Inr h)
        with go False c tb m' show ?thesis by auto
      next
        case (Inl e)
        show ?thesis
        proof (cases "is_ImportError e")
          case True
          with go False c tb Inl m' ih2 show ?thesis by auto
        next
          case False
          with go \<open>\<not> conflicting (imported_module s) n\<close> c tb Inl m' show ?thesis by auto
        qed
      qed
    qed
  qed
qed

lemma lib_names_nonempty: "(a, n) \<in> set (lib_names w) \<Longrightarrow> n \<noteq> []"
  by (auto simp: lib_names_def split: if_splits)

lemma llama_cpp_lib_marker_wf:
  "marker_wf s \<Longrightarrow> marker_wf (snd (llama_cpp_lib w s))"
  using import_loop_marker_from [of w s "lib_names w"] lib_names_nonempty [of _ _ w]
  unfolding marker_wf_def llama_cpp_lib_def by force

lemma run_Nil [simp]: "run [] s = s"
  by (simp add: run_def)

lemma run_Cons [simp]: "run (w # ws) s = run ws (snd (llama_cpp_lib w s))"
  by (simp add: run_def split: prod.splits)

lemma run_append: "run (ws1 @ ws2) s = run ws2 (run ws1 s)"
  by (induction ws1 arbitrary: s) simp_all

lemma run_marker_wf: "marker_wf s \<Longrightarrow> marker_wf (run ws s)"
  by (induction ws arbitrary: s) (simp_all add: llama_cpp_lib_marker_wf)

lemma run_marker_kept:
  "imported_module s = Some m \<Longrightarrow> m \<noteq> [] \<Longrightarrow> imported_module (run ws s) = Some m"
  by (induction ws arbitrary: s) (simp_all add: llama_cpp_lib_def import_loop_marker_kept)

text \<open>
  Claim C3. The loaded-variant marker \<open>imported_module\<close> starts empty. Once some sequence
  of \<open>llama_cpp_lib\<close> calls has set it to a variant name \<open>m\<close>, it is still \<open>m\<close> after any
  further calls, whatever their platform, flags and import outcomes are (and whether they
  return or raise).
\<close>

theorem marker_immutable:
  assumes "imported_module s0 = None"
    and "imported_module (run ws1 s0) = Some m"
  shows "imported_module (run (ws1 @ ws2) s0) = Some m"
proof -
  from assms(1) have "marker_wf s0" by (simp add: marker_wf_def)
  then have "marker_wf (run ws1 s0)" by (rule run_marker_wf)
  with assms(2) have "m \<noteq> []" by (auto simp: marker_wf_def)
  with assms(2) show ?thesis by (simp add: run_append run_marker_kept)
qed

theorem marker_immutable_witness:
  "imported_module init_process = None \<and>
   imported_module (run [mk_world True False False (installed [''llama_cpp''])] init_process)
     = Some ''llama_cpp'' \<and>
   imported_module (run ([mk_world True False False (installed [''llama_cpp''])] @
                         [mk_world False False True (installed [''llama_cpp'', ''llama_cpp_cuda_tensorcores''])])
                      init_process)
     = Some ''llama_cpp''"
proof -
  have h1: "imported_module init_process = None" by (simp add: init_process_def)
  have h2: "imported_module (run [mk_world True False False (installed [''llama_cpp''])] init_process)
     = Some ''llama_cpp''"
    by (simp add: eval_defs)
  from marker_immutable [OF h1 h2] h1 h2 show ?thesis by blast
qed

text \<open>
  Claim C1. A variant \<open>m\<close> is loaded, and the first candidate that is neither in the
  unavailable set nor ineligible under the flags is named \<open>lib_name \<noteq> m\<close>. Then the call
  raises the conflict exception, whose message names both variants and says that switching
  requires a server restart, and the process state (marker, unavailable set and all the
  rest) is the one the call started from.
\<close>

theorem llama_cpp_lib_conflict:
  assumes "imported_module s = Some m" and "m \<noteq> []"
    and "selected w s = Some lib_name"
    and "lib_name \<noteq> m"
  shows "llama_cpp_lib w s =
           (Inl (PyException (''Cannot import `'' @ lib_name @ ''` because `'' @ m @
              ''` is already imported. Switching to a different version of llama-cpp-python currently requires a server restart.'')),
            s)"
proof -
  from assms(3) obtain arg where
    "find (\<lambda>(arg, name). name \<notin> not_available_modules s \<and> should_import w arg) (lib_names w)
       = Some (arg, lib_name)"
    by (auto simp: selected_def)
  from import_loop_conflict [OF assms(1,2) this assms(4)] show ?thesis
    by (simp add: llama_cpp_lib_def conflict_message_def)
qed

theorem llama_cpp_lib_conflict_witness:
  "llama_cpp_lib (mk_world False True False (installed [''llama_cpp'', ''llama_cpp_cuda''])) cuda_loaded =
     (Inl (PyException
        ''Cannot import `llama_cpp` because `llama_cpp_cuda` is already imported. Switching to a different version of llama-cpp-python currently requires a server restart.''),
      cuda_loaded)"
proof -
  let ?w = "mk_world False True False (installed [''llama_cpp'', ''llama_cpp_cuda''])"
  have h1: "imported_module cuda_loaded = Some ''llama_cpp_cuda''"
    by (simp add: cuda_loaded_def eval_defs)
  have h2: "''llama_cpp_cuda'' \<noteq> []" by simp
  have na: "not_available_modules cuda_loaded = {}"
    by (simp add: cuda_loaded_def eval_defs)
  have h3: "selected ?w cuda_loaded = Some ''llama_cpp''"
    by (simp add: selected_def na lib_names_def should_import_def mk_world_def)
  have h4: "''llama_cpp'' \<noteq> ''llama_cpp_cuda''" by simp
  from llama_cpp_lib_conflict [OF h1 h2 h3 h4] show ?thesis by simp
qed

text \<open>
  Claim C8. On macOS the candidate list is the single ungated \<open>llama_cpp\<close>, whatever the
  flags are; on every other platform it is the four entries cpu-gated \<open>llama_cpp\<close>,
  tensorcores-gated \<open>llama_cpp_cuda_tensorcores\<close>, ungated \<open>llama_cpp_cuda\<close>, ungated
  \<open>llama_cpp\<close>, in this order. The selector iterates over exactly this list.
\<close>

theorem candidate_list:
  "lib_names (w\<lparr>is_macos := True\<rparr>) = [(None, ''llama_cpp'')] \<and>
   lib_names (w\<lparr>is_macos := False\<rparr>) =
     [(Some ''cpu'', ''llama_cpp''),
      (Some ''tensorcores'', ''llama_cpp_cuda_tensorcores''),
      (None, ''llama_cpp_cuda''),
      (None, ''llama_cpp'')] \<and>
   length (lib_names (w\<lparr>is_macos := True\<rparr>)) = 1 \<and>
   length (lib_names (w\<lparr>is_macos := False\<rparr>)) = 4 \<and>
   llama_cpp_lib (w\<lparr>is_macos := True\<rparr>) s =
     import_loop (w\<lparr>is_macos := True\<rparr>) s [(None, ''llama_cpp'')]"
  by (simp add: lib_names_def llama_cpp_lib_def)

lemma import_module_trace:
  "\<exists>new. trace (snd (import_module w s n)) = trace s @ new \<and>
         set new \<subseteq> {ImportAttempt n, ModuleLoaded n}"
  by (auto simp: import_module_def Let_def split: option.splits sum.splits)

lemma try_body_trace:
  "\<exists>new. trace (snd (try_body w s n)) = trace s @ new \<and>
         set new \<subseteq> {ImportAttempt n, ModuleLoaded n}"
proof -
  obtain r s1 where im: "import_module w s n = (r, s1)" by (cases "import_module w s n")
  with import_module_trace [of w s n] obtain new where
    new: "trace s1 = trace s @ new" "set new \<subseteq> {ImportAttempt n, ModuleLoaded n}" by auto
  have "trace (snd (try_body w s n)) = trace s1"
    using im by (simp add: try_body_def Let_def split: sum.splits prod.splits option.splits)
  with new show ?thesis by auto
qed

lemma import_loop_no_retry:
  "not_available_modules s \<subseteq> not_available_modules (snd (import_loop w s cands)) \<and>
   (\<exists>new. trace (snd (import_loop w s cands)) = trace s @ new \<and>
          (\<forall>n \<in> not_available_modules s. ImportAttempt n \<notin> set new))"
proof (induction cands arbitrary: s)
  case Nil
  then show ?case by simp
next
  case (Cons c cands)
  obtain a n where c: "c = (a, n)" by (cases c)
  obtain r s' where tb: "try_body w s n = (r, s')" by (cases "try_body w s n")
  let ?s'' = "s'\<lparr>not_available_modules := insert n (not_available_modules s')\<rparr>"
  have na': "not_available_modules s' = not_available_modules s"
    using try_body_na [of w s n] tb by simp
  obtain new1 where new1: "trace s' = trace s @ new1" "set new1 \<subseteq> {ImportAttempt n, ModuleLoaded n}"
    using try_body_trace [of w s n] tb by auto
  show ?case
  proof (cases "n \<notin> not_available_modules s \<and> should_import w a")
    case False
    with Cons.IH [of s] c show ?thesis by auto
  next
    case go: True
    then have fresh: "\<forall>k \<in> not_available_modules s. ImportAttempt k \<notin> set new1"
      using new1 by auto
    have stop: "not_available_modules s \<subseteq> not_available_modules s' \<and>
       (\<exists>new. trace s' = trace s @ new \<and> (\<forall>k \<in> not_available_modules s. ImportAttempt k \<notin> set new))"
      using na' new1 fresh by auto
    from Cons.IH [of ?s''] obtain new2 where
      sub2: "not_available_modules ?s'' \<subseteq> not_available_modules (snd (import_loop w ?s'' cands))"
      and new2: "trace (snd (import_loop w ?s'' cands)) = trace ?s'' @ new2"
        "\<forall>k \<in> not_available_modules ?s''. ImportAttempt k \<notin> set new2"
      by auto
    have cont: "not_available_modules s \<subseteq> not_available_modules (snd (import_loop w ?s'' cands)) \<and>
       (\<exists>new. trace (snd (import_loop w ?s'' cands)) = trace s @ new \<and>
              (\<forall>k \<in> not_available_modules s. ImportAttempt k \<notin> set new))"
    proof
      show "not_available_modules s \<subseteq> not_available_modules (snd (import_loop w ?s'' cands))"
        using sub2 na' by auto
      have "trace (snd (import_loop w ?s'' cands)) = trace s @ (new1 @ new2)"
        using new2(1) new1(1) by simp
      moreover have "\<forall>k \<in> not_available_modules s. ImportAttempt k \<notin> set (new1 @ new2)"
        using fresh new2(2) na' by auto
      ultimately show "\<exists>new. trace (snd (import_loop w ?s'' cands)) = trace s @ new \<and>
              (\<forall>k \<in> not_available_modules s. ImportAttempt k \<notin> set new)" by blast
    qed
    show ?thesis
    proof (cases "conflicting (imported_module s) n")
      case True
      with go c show ?thesis by simp
    next
      case False
      with go c tb stop cont show ?thesis
        by (cases r) (simp_all split: if_splits)
    qed
  qed
qed

lemma run_no_retry:
  "not_available_modules s \<subseteq> not_available_modules (run ws s) \<and>
   (\<exists>new. trace (run ws s) = trace s @ new \<and>
          (\<forall>n \<in> not_available_modules s. ImportAttempt n \<notin> set new))"
proof (induction ws arbitrary: s)
  case Nil
  then show ?case by simp
next
  case (Cons w ws)
  let ?s1 = "snd (llama_cpp_lib w s)"
  from import_loop_no_retry [of s w "lib_names w"] obtain new1 where
    a: "not_available_modules s \<subseteq> not_available_modules ?s1"
    and b: "trace ?s1 = trace s @ new1" "\<forall>n \<in> not_available_modules s. ImportAttempt n \<notin> set new1"
    by (auto simp: llama_cpp_lib_def)
  from Cons.IH [of ?s1] obtain new2 where
    c: "not_available_modules ?s1 \<subseteq> not_available_modules (run ws ?s1)"
    and d: "trace (run ws ?s1) = trace ?s1 @ new2" "\<forall>n \<in> not_available_modules ?s1. ImportAttempt n \<notin> set new2"
    by auto
  have "trace (run (w # ws) s) = trace s @ (new1 @ new2)" using b(1) d(1) by simp
  moreover have "\<forall>n \<in> not_available_modules s. ImportAttempt n \<notin> set (new1 @ new2)"
    using a b(2) d(2) by auto
  moreover have "not_available_modules s \<subseteq> not_available_modules (run (w # ws) s)"
    using a c by auto
  ultimately show ?case by blast
qed

text \<open>
  Claim C2. Take any process state reached by some calls \<open>ws1\<close>. Every name in the
  unavailable set at that moment is still in the set after any later calls \<open>ws2\<close>, and none
  of the \<open>import_module\<close> calls made by \<open>ws2\<close> is for such a name. The same holds inside one
  call, from any iteration of the loop on: the set only grows, names in it are not
  imported, and an iteration whose candidate is in the set is skipped as a whole.
\<close>

theorem unavailable_never_retried:
  "not_available_modules (run ws1 s0) \<subseteq> not_available_modules (run (ws1 @ ws2) s0) \<and>
   (\<forall>n \<in> not_available_modules (run ws1 s0).
      ImportAttempt n \<notin> set (drop (length (trace (run ws1 s0))) (trace (run (ws1 @ ws2) s0)))) \<and>
   not_available_modules s \<subseteq> not_available_modules (snd (import_loop w s cands)) \<and>
   (\<forall>n \<in> not_available_modules s.
      ImportAttempt n \<notin> set (drop (length (trace s)) (trace (snd (import_loop w s cands))))) \<and>
   (lib_name \<in> not_available_modules s \<longrightarrow>
      import_loop w s ((arg, lib_name) # rest) = import_loop w s rest)"
proof -
  from run_no_retry [of "run ws1 s0" ws2] obtain new where
    "not_available_modules (run ws1 s0) \<subseteq> not_available_modules (run (ws1 @ ws2) s0)"
    "trace (run (ws1 @ ws2) s0) = trace (run ws1 s0) @ new"
    "\<forall>n \<in> not_available_modules (run ws1 s0). ImportAttempt n \<notin> set new"
    by (auto simp: run_append)
  moreover from import_loop_no_retry [of s w cands] obtain new' where
    "not_available_modules s \<subseteq> not_available_modules (snd (import_loop w s cands))"
    "trace (snd (import_loop w s cands)) = trace s @ new'"
    "\<forall>n \<in> not_available_modules s. ImportAttempt n \<notin> set new'"
    by auto
  ultimately show ?thesis by simp
qed

theorem unavailable_never_retried_witness:
  "''llama_cpp'' \<in> not_available_modules (run [cpu_world] init_process) \<and>
   ''llama_cpp'' \<in> not_available_modules (run ([cpu_world] @ [cpu_world]) init_process) \<and>
   trace (run [cpu_world] init_process) =
     [ImportAttempt ''llama_cpp'', ImportAttempt ''llama_cpp_cuda'', ModuleLoaded ''llama_cpp_cuda''] \<and>
   ImportAttempt ''llama_cpp'' \<notin>
     set (drop (length (trace (run [cpu_world] init_process)))
            (trace (run ([cpu_world] @ [cpu_world]) init_process)))"
proof -
  have h: "''llama_cpp'' \<in> not_available_modules (run [cpu_world] init_process)"
    by (simp add: cpu_world_def eval_defs)
  have t: "trace (run [cpu_world] init_process) =
     [ImportAttempt ''llama_cpp'', ImportAttempt ''llama_cpp_cuda'', ModuleLoaded ''llama_cpp_cuda'']"
    by (simp add: cpu_world_def eval_defs)
  from unavailable_never_retried [of "[cpu_world]" init_process "[cpu_world]" init_process cpu_world "[]" "''x''" None "[]"]
    h t show ?thesis by blast
qed

lemma import_module_fail:
  "sys_modules s n = None \<Longrightarrow> loader w n = Inl e \<Longrightarrow>
     import_module w s n = (Inl e, s\<lparr>trace := trace s @ [ImportAttempt n]\<rparr>)"
  by (simp add: import_module_def)

lemma import_module_cached:
  "sys_modules s n = Some l \<Longrightarrow>
     import_module w s n = (Inr l, s\<lparr>trace := trace s @ [ImportAttempt n]\<rparr>)"
  by (simp add: import_module_def)

lemma try_body_Inl:
  "import_module w s n = (Inl e, s1) \<Longrightarrow> try_body w s n = (Inl e, s1)"
  by (simp add: try_body_def)

lemma try_body_patch_fails:
  assumes "import_module w s n = (Inr l, s1)"
    and "fst (monkey_patch_llama_cpp_python l) = Some e"
  shows "fst (try_body w s n) = Inl e \<and>
         imported_module (snd (try_body w s n)) = Some n"
proof -
  obtain r p where mp: "monkey_patch_llama_cpp_python l = (r, p)"
    by (cases "monkey_patch_llama_cpp_python l")
  with assms(2) have "r = Some e" by simp
  with assms(1) mp show ?thesis
    by (simp add: try_body_def)
qed

text \<open>
  Claim C6, as amended. For a candidate that is reached (not unavailable, eligible, no
  conflict), the handler sees every exception of the \<open>try\<close> block, whether the import
  raised it or, after a successful import and with the marker already set, the patch step.
  An exception of class \<open>ImportError\<close> (module not found or any other import error) is
  recovered: the name is recorded as unavailable and the loop goes on with the next
  candidate. An exception of any other class reaches the caller as it is, and the
  unavailable set is unchanged. Without an exception the handle is returned.
\<close>

theorem import_error_handling:
  assumes "lib_name \<notin> not_available_modules s"
    and "should_import w arg"
    and "\<not> conflicting (imported_module s) lib_name"
    and "try_body w s lib_name = (r, s1)"
  shows "(\<forall>e. fst (import_module w s lib_name) = Inl e \<longrightarrow>
            r = Inl e \<and> s1 = snd (import_module w s lib_name)) \<and>
         (\<forall>l e. fst (import_module w s lib_name) = Inr l \<and>
                fst (monkey_patch_llama_cpp_python l) = Some e \<longrightarrow>
            r = Inl e \<and> imported_module s1 = Some lib_name) \<and>
         (\<forall>e. r = Inl e \<and> is_ImportError e \<longrightarrow>
            import_loop w s ((arg, lib_name) # rest) =
              import_loop w
                (s1\<lparr>not_available_modules := insert lib_name (not_available_modules s)\<rparr>) rest) \<and>
         (\<forall>e. r = Inl e \<and> \<not> is_ImportError e \<longrightarrow>
            import_loop w s ((arg, lib_name) # rest) = (Inl e, s1) \<and>
            not_available_modules s1 = not_available_modules s) \<and>
         (\<forall>h. r = Inr h \<longrightarrow>
            import_loop w s ((arg, lib_name) # rest) = (Inr (Some h), s1) \<and>
            not_available_modules s1 = not_available_modules s)"
proof -
  have na1: "not_available_modules s1 = not_available_modules s"
    using try_body_na [of w s lib_name] assms(4) by simp
  have a: "r = Inl e \<and> s1 = snd (import_module w s lib_name)"
    if "fst (import_module w s lib_name) = Inl e" for e
  proof -
    from that have "import_module w s lib_name = (Inl e, snd (import_module w s lib_name))"
      by (simp add: prod_eq_iff)
    from try_body_Inl [OF this] assms(4) show ?thesis by simp
  qed
  have b: "r = Inl e \<and> imported_module s1 = Some lib_name"
    if "fst (import_module w s lib_name) = Inr l" "fst (monkey_patch_llama_cpp_python l) = Some e"
    for l e
  proof -
    from that(1) have "import_module w s lib_name = (Inr l, snd (import_module w s lib_name))"
      by (simp add: prod_eq_iff)
    from try_body_patch_fails [OF this that(2)] assms(4) show ?thesis by simp
  qed
  have c: "import_loop w s ((arg, lib_name) # rest) =
              import_loop w
                (s1\<lparr>not_available_modules := insert lib_name (not_available_modules s)\<rparr>) rest"
    if "r = Inl e" "is_ImportError e" for e
    using that assms na1 by simp
  have d: "import_loop w s ((arg, lib_name) # rest) = (Inl e, s1)"
    if "r = Inl e" "\<not> is_ImportError e" for e
    using that assms by simp
  have e: "import_loop w s ((arg, lib_name) # rest) = (Inr (Some h), s1)"
    if "r = Inr h" for h
    using that assms by simp
  from a b c d e na1 show ?thesis by blast
qed

text \<open>
  The claim as stated fails: an import that fails with an \<open>ImportError\<close> that is not a
  \<open>ModuleNotFoundError\<close> (here a shared library that cannot be loaded) is recovered too.
  The call returns \<open>None\<close> and the variant is recorded as unavailable.
\<close>

theorem import_error_handling_counterexample:
  "loader dll_world ''llama_cpp'' = Inl (ImportError ''DLL load failed while importing llama_cpp'') \<and>
   \<not> is_ModuleNotFoundError (ImportError ''DLL load failed while importing llama_cpp'') \<and>
   llama_cpp_lib dll_world init_process =
     (Inr None,
      init_process\<lparr>not_available_modules := {''llama_cpp''},
                   trace := [ImportAttempt ''llama_cpp'']\<rparr>)"
  by (simp add: dll_world_def eval_defs)

theorem import_error_handling_witness:
  "import_loop dll_world init_process [(None, ''llama_cpp'')] =
     (Inr None,
      init_process\<lparr>not_available_modules := {''llama_cpp''},
                   trace := [ImportAttempt ''llama_cpp'']\<rparr>) \<and>
   import_loop runtime_world init_process [(None, ''llama_cpp'')] =
     (Inl (RuntimeError ''Failed to load shared library''),
      init_process\<lparr>trace := [ImportAttempt ''llama_cpp'']\<rparr>) \<and>
   fst (import_loop no_class_world init_process [(None, ''llama_cpp'')]) =
     Inl (AttributeError ''Llama'') \<and>
   not_available_modules (snd (import_loop no_class_world init_process [(None, ''llama_cpp'')])) = {} \<and>
   fst (import_loop lazy_world init_process [(None, ''llama_cpp'')]) = Inr None \<and>
   not_available_modules (snd (import_loop lazy_world init_process [(None, ''llama_cpp'')])) =
     {''llama_cpp''} \<and>
   imported_module (snd (import_loop lazy_world init_process [(None, ''llama_cpp'')])) =
     Some ''llama_cpp''"
proof -
  have n: "''llama_cpp'' \<notin> not_available_modules init_process"
    by (simp add: init_process_def)
  have c: "\<not> conflicting (imported_module init_process) ''llama_cpp''"
    by (simp add: init_process_def)
  have e1: "should_import dll_world None" by (simp add: should_import_def)
  have e2: "should_import runtime_world None" by (simp add: should_import_def)
  have e3: "should_import no_class_world None" by (simp add: should_import_def)
  have e4: "should_import lazy_world None" by (simp add: should_import_def)
  have t1: "try_body dll_world init_process ''llama_cpp'' =
      (Inl (ImportError ''DLL load failed while importing llama_cpp''),
       init_process\<lparr>trace := [ImportAttempt ''llama_cpp'']\<rparr>)"
    by (simp add: dll_world_def eval_defs)
  have t2: "try_body runtime_world init_process ''llama_cpp'' =
      (Inl (RuntimeError ''Failed to load shared library''),
       init_process\<lparr>trace := [ImportAttempt ''llama_cpp'']\<rparr>)"
    by (simp add: runtime_world_def eval_defs)
  have t3: "try_body no_class_world init_process ''llama_cpp'' =
      (Inl (AttributeError ''Llama''),
       init_process\<lparr>imported_module := Some ''llama_cpp'',
                    sys_modules := [''llama_cpp'' \<mapsto>
                      \<lparr>Llama = None, llama_chat_format = None, missing = AttributeError\<rparr>],
                    trace := [ImportAttempt ''llama_cpp'', ModuleLoaded ''llama_cpp'']\<rparr>)"
    by (simp add: no_class_world_def eval_defs)
  have t4: "try_body lazy_world init_process ''llama_cpp'' =
      (Inl (ImportError ''No module named llama_cpp.llama''),
       init_process\<lparr>imported_module := Some ''llama_cpp'',
                    sys_modules := [''llama_cpp'' \<mapsto>
                      \<lparr>Llama = None, llama_chat_format = None,
                       missing = (\<lambda>n. ImportError ''No module named llama_cpp.llama'')\<rparr>],
                    trace := [ImportAttempt ''llama_cpp'', ModuleLoaded ''llama_cpp'']\<rparr>)"
    by (simp add: lazy_world_def eval_defs)
  from import_error_handling [OF n e1 c t1, of "[]"]
  have a: "import_loop dll_world init_process [(None, ''llama_cpp'')] =
     (Inr None,
      init_process\<lparr>not_available_modules := {''llama_cpp''},
                   trace := [ImportAttempt ''llama_cpp'']\<rparr>)"
    by (simp add: init_process_def)
  from import_error_handling [OF n e2 c t2, of "[]"]
  have b: "import_loop runtime_world init_process [(None, ''llama_cpp'')] =
     (Inl (RuntimeError ''Failed to load shared library''),
      init_process\<lparr>trace := [ImportAttempt ''llama_cpp'']\<rparr>)"
    by simp
  from import_error_handling [OF n e3 c t3, of "[]"]
  have d: "fst (import_loop no_class_world init_process [(None, ''llama_cpp'')]) =
     Inl (AttributeError ''Llama'') \<and>
   not_available_modules (snd (import_loop no_class_world init_process [(None, ''llama_cpp'')])) = {}"
    by (simp add: init_process_def)
  from import_error_handling [OF n e4 c t4, of "[]"]
  have e: "fst (import_loop lazy_world init_process [(None, ''llama_cpp'')]) = Inr None \<and>
   not_available_modules (snd (import_loop lazy_world init_process [(None, ''llama_cpp'')])) =
     {''llama_cpp''} \<and>
   imported_module (snd (import_loop lazy_world init_process [(None, ''llama_cpp'')])) =
     Some ''llama_cpp''"
    by (simp add: init_process_def)
  from a b d e show ?thesis by simp
qed

lemma import_loop_all_fail:
  assumes "\<forall>(arg, name) \<in> set cands.
             name \<in> not_available_modules s \<or> \<not> should_import w arg \<or>
             (\<not> conflicting (imported_module s) name \<and> sys_modules s name = None \<and>
              (\<exists>e. loader w name = Inl e \<and> is_ImportError e))"
  shows "fst (import_loop w s cands) = Inr None \<and>
         imported_module (snd (import_loop w s cands)) = imported_module s \<and>
         sys_modules (snd (import_loop w s cands)) = sys_modules s"
  using assms
proof (induction cands arbitrary: s)
  case Nil
  then show ?case by simp
next
  case (Cons c cands)
  obtain a n where c: "c = (a, n)" by (cases c)
  have tl: "\<forall>(arg, name) \<in> set cands.
             name \<in> not_available_modules s \<or> \<not> should_import w arg \<or>
             (\<not> conflicting (imported_module s) name \<and> sys_modules s name = None \<and>
              (\<exists>e. loader w name = Inl e \<and> is_ImportError e))"
    using Cons.prems by simp
  show ?case
  proof (cases "n \<notin> not_available_modules s \<and> should_import w a")
    case False
    with Cons.IH [OF tl] c show ?thesis by auto
  next
    case go: True
    with Cons.prems c obtain e where
      nc: "\<not> conflicting (imported_module s) n" and sm: "sys_modules s n = None"
      and ld: "loader w n = Inl e" and ie: "is_ImportError e"
      by auto
    let ?s1 = "s\<lparr>trace := trace s @ [ImportAttempt n]\<rparr>"
    let ?s2 = "?s1\<lparr>not_available_modules := insert n (not_available_modules ?s1)\<rparr>"
    have tb: "try_body w s n = (Inl e, ?s1)"
      using import_module_fail [OF sm ld] by (rule try_body_Inl)
    have "\<forall>(arg, name) \<in> set cands.
             name \<in> not_available_modules ?s2 \<or> \<not> should_import w arg \<or>
             (\<not> conflicting (imported_module ?s2) name \<and> sys_modules ?s2 name = None \<and>
              (\<exists>e. loader w name = Inl e \<and> is_ImportError e))"
      using tl by auto
    from Cons.IH [OF this] have "fst (import_loop w ?s2 cands) = Inr None \<and>
         imported_module (snd (import_loop w ?s2 cands)) = imported_module s \<and>
         sys_modules (snd (import_loop w ?s2 cands)) = sys_modules s" by simp
    with go nc tb ie c show ?thesis by simp
  qed
qed

text \<open>
  Claim C7, as amended. When every candidate is in the unavailable set, or ineligible, or
  does not conflict with the loaded variant and fails to import with an exception of class
  \<open>ImportError\<close>, the call returns \<open>None\<close>; the marker and the table of loaded modules are
  as before.
\<close>

theorem all_fail_returns_None:
  assumes "\<forall>(arg, name) \<in> set (lib_names w).
             name \<in> not_available_modules s \<or> \<not> should_import w arg \<or>
             (\<not> conflicting (imported_module s) name \<and> sys_modules s name = None \<and>
              (\<exists>e. loader w name = Inl e \<and> is_ImportError e))"
  shows "fst (llama_cpp_lib w s) = Inr None \<and>
         imported_module (snd (llama_cpp_lib w s)) = imported_module s \<and>
         sys_modules (snd (llama_cpp_lib w s)) = sys_modules s"
  using import_loop_all_fail [OF assms] by (simp add: llama_cpp_lib_def)

text \<open>
  The claim as stated fails in two ways. After \<open>llama_cpp_cuda_tensorcores\<close> was loaded,
  a call with the flags off finds the first two candidates ineligible and the last two not
  installed, and raises the conflict exception. And an import that fails with an exception
  outside \<open>ImportError\<close> makes the call raise that exception.
\<close>

theorem all_fail_returns_None_counterexample:
  "\<not> should_import flags_off_world (Some ''cpu'') \<and>
   \<not> should_import flags_off_world (Some ''tensorcores'') \<and>
   fst (import_module flags_off_world tc_loaded ''llama_cpp_cuda'') =
     Inl (ModuleNotFoundError ''llama_cpp_cuda'') \<and>
   fst (import_module flags_off_world tc_loaded ''llama_cpp'') =
     Inl (ModuleNotFoundError ''llama_cpp'') \<and>
   fst (llama_cpp_lib flags_off_world tc_loaded) =
     Inl (PyException
       ''Cannot import `llama_cpp_cuda` because `llama_cpp_cuda_tensorcores` is already imported. Switching to a different version of llama-cpp-python currently requires a server restart.'') \<and>
   fst (import_module runtime_world init_process ''llama_cpp'') =
     Inl (RuntimeError ''Failed to load shared library'') \<and>
   fst (llama_cpp_lib runtime_world init_process) =
     Inl (RuntimeError ''Failed to load shared library'')"
  by (simp add: flags_off_world_def tc_loaded_def tc_world_def runtime_world_def eval_defs)

theorem all_fail_returns_None_witness:
  "fst (llama_cpp_lib nothing_installed init_process) = Inr None \<and>
   imported_module (snd (llama_cpp_lib nothing_installed init_process)) = None"
proof -
  have "\<forall>(arg, name) \<in> set (lib_names nothing_installed).
             name \<in> not_available_modules init_process \<or> \<not> should_import nothing_installed arg \<or>
             (\<not> conflicting (imported_module init_process) name \<and>
              sys_modules init_process name = None \<and>
              (\<exists>e. loader nothing_installed name = Inl e \<and> is_ImportError e))"
    by (simp add: nothing_installed_def lib_names_def should_import_def init_process_def
        installed_def mk_world_def)
  from all_fail_returns_None [OF this] show ?thesis by (simp add: init_process_def)
qed

lemma try_body_success:
  assumes "try_body w s n = (Inr h, s')"
  shows "h = n \<and> loaded_and_patched s' n"
proof -
  obtain r s1 where im: "import_module w s n = (r, s1)" by (cases "import_module w s n")
  with assms obtain l where r: "r = Inr l"
    by (cases r) (auto simp: try_body_def)
  obtain e p where mp: "monkey_patch_llama_cpp_python l = (e, p)"
    by (cases "monkey_patch_llama_cpp_python l")
  with assms im r have e: "e = None" and h: "h = n"
    and s': "s' = s1\<lparr>imported_module := Some n, sys_modules := (sys_modules s1)(n \<mapsto> p)\<rparr>"
    by (auto simp: try_body_def Let_def split: option.splits)
  from monkey_patch_done mp e obtain c where "Llama p = Some c" "getattr_default (is_patched c)"
    by blast
  with s' h show ?thesis by (simp add: loaded_and_patched_def)
qed

lemma import_loop_success:
  "import_loop w s cands = (Inr (Some h), s1) \<Longrightarrow> loaded_and_patched s1 h"
proof (induction cands arbitrary: s)
  case Nil
  then show ?case by simp
next
  case (Cons c cands)
  obtain a n where c: "c = (a, n)" by (cases c)
  obtain r s' where tb: "try_body w s n = (r, s')" by (cases "try_body w s n")
  show ?case
  proof (cases "n \<notin> not_available_modules s \<and> should_import w a")
    case False
    with Cons c show ?thesis by (auto split: if_splits)
  next
    case go: True
    show ?thesis
    proof (cases r)
      case (Inr h')
      with tb try_body_success have "h' = n" "loaded_and_patched s' n" by blast+
      with go Cons.prems c tb Inr show ?thesis by (auto split: if_splits)
    next
      case (Inl e)
      with go Cons.prems c tb Cons.IH show ?thesis by (auto split: if_splits)
    qed
  qed
qed

lemma try_body_reselect:
  assumes "loaded_and_patched s h"
  shows "try_body w s h = (Inr h, s\<lparr>trace := trace s @ [ImportAttempt h]\<rparr>)"
proof -
  from assms obtain l c where m: "imported_module s = Some h"
    and l: "sys_modules s h = Some l" "Llama l = Some c" "getattr_default (is_patched c)"
    by (auto simp: loaded_and_patched_def split: option.splits)
  have mp: "monkey_patch_llama_cpp_python l = (None, l)"
    using l(2,3) by (rule monkey_patch_again)
  have upd: "(sys_modules s)(h \<mapsto> l) = sys_modules s"
    using l(1) by (rule map_upd_triv)
  have "s\<lparr>trace := trace s @ [ImportAttempt h], imported_module := Some h,
           sys_modules := (sys_modules s)(h \<mapsto> l)\<rparr> = s\<lparr>trace := trace s @ [ImportAttempt h]\<rparr>"
    using m upd by (cases s) simp
  then show ?thesis
    using import_module_cached [OF l(1), of w] mp by (simp add: try_body_def Let_def)
qed

lemma import_loop_reselect:
  assumes "loaded_and_patched s h"
    and "find (\<lambda>(arg, name). name \<notin> not_available_modules s \<and> should_import w arg) cands
           = Some (arg, h)"
  shows "import_loop w s cands = (Inr (Some h), s\<lparr>trace := trace s @ [ImportAttempt h]\<rparr>)"
  using assms(2)
proof (induction cands)
  case Nil
  then show ?case by simp
next
  case (Cons c cands)
  obtain a n where c: "c = (a, n)" by (cases c)
  show ?case
  proof (cases "n \<notin> not_available_modules s \<and> should_import w a")
    case True
    with Cons.prems c have n: "n = h" by simp
    from assms(1) have "\<not> conflicting (imported_module s) h"
      by (simp add: loaded_and_patched_def)
    with True n c try_body_reselect [OF assms(1), of w] show ?thesis by simp
  next
    case False
    with Cons c show ?thesis by auto
  qed
qed

lemma llama_cpp_lib_reselect:
  assumes "loaded_and_patched s h" and "selected w s = Some h"
  shows "llama_cpp_lib w s = (Inr (Some h), s\<lparr>trace := trace s @ [ImportAttempt h]\<rparr>)"
proof -
  from assms(2) obtain arg where
    "find (\<lambda>(arg, name). name \<notin> not_available_modules s \<and> should_import w arg) (lib_names w)
       = Some (arg, h)"
    by (auto simp: selected_def)
  from import_loop_reselect [OF assms(1) this] show ?thesis by (simp add: llama_cpp_lib_def)
qed

lemma calls_reselect:
  assumes "loaded_and_patched s h" and "\<forall>w \<in> set ws. selected w s = Some h"
  shows "calls ws s =
           (replicate (length ws) (Inr (Some h)),
            s\<lparr>trace := trace s @ replicate (length ws) (ImportAttempt h)\<rparr>)"
  using assms
proof (induction ws arbitrary: s)
  case Nil
  then show ?case by simp
next
  case (Cons w ws)
  let ?s1 = "s\<lparr>trace := trace s @ [ImportAttempt h]\<rparr>"
  have step: "llama_cpp_lib w s = (Inr (Some h), ?s1)"
    using Cons.prems by (simp add: llama_cpp_lib_reselect)
  have inv: "loaded_and_patched ?s1 h"
    using Cons.prems(1) by (simp add: loaded_and_patched_def)
  have sel: "\<forall>w \<in> set ws. selected w ?s1 = Some h"
    using Cons.prems(2) by (simp add: selected_def)
  from Cons.IH [OF inv sel] step show ?case
    by (simp add: replicate_append_same [symmetric] del: replicate_Suc replicate_append_same)
      (simp add: replicate_append_same)
qed

text \<open>
  Claim C4, as amended. After a call that returned the handle \<open>h\<close>, every later call
  whose configuration selects \<open>h\<close> again (its first available, eligible candidate is \<open>h\<close>)
  returns the same handle \<open>h\<close>. Each of these calls makes one more call of
  \<open>importlib.import_module\<close> for \<open>h\<close>, which loads nothing, and the rest of the process
  state (marker, unavailable set, loaded and patched modules) stays as it is.
\<close>

theorem same_variant_again:
  assumes "llama_cpp_lib w s = (Inr (Some h), s1)"
    and "\<forall>w' \<in> set ws. selected w' s1 = Some h"
  shows "calls ws s1 =
           (replicate (length ws) (Inr (Some h)),
            s1\<lparr>trace := trace s1 @ replicate (length ws) (ImportAttempt h)\<rparr>)"
proof -
  from assms(1) have "loaded_and_patched s1 h"
    unfolding llama_cpp_lib_def by (rule import_loop_success)
  from calls_reselect [OF this assms(2)] show ?thesis .
qed

text \<open>
  The claim as stated fails: the selector keeps no handle of its own, so the second of two
  identical successful calls calls \<open>importlib.import_module\<close> again. Two import attempts
  are made, and one module load.
\<close>

theorem same_variant_again_counterexample:
  "fst (calls [mac_world, mac_world] init_process) =
     [Inr (Some ''llama_cpp''), Inr (Some ''llama_cpp'')] \<and>
   trace (run [mac_world, mac_world] init_process) =
     [ImportAttempt ''llama_cpp'', ModuleLoaded ''llama_cpp'', ImportAttempt ''llama_cpp''] \<and>
   length (filter (\<lambda>e. e = ImportAttempt ''llama_cpp'')
             (trace (run [mac_world, mac_world] init_process))) = 2"
  by (simp add: mac_world_def eval_defs)

theorem same_variant_again_witness:
  "fst (llama_cpp_lib tc_world init_process) = Inr (Some ''llama_cpp_cuda_tensorcores'') \<and>
   fst (calls [tc_world, tc_world_uninstalled] tc_loaded) =
     [Inr (Some ''llama_cpp_cuda_tensorcores''), Inr (Some ''llama_cpp_cuda_tensorcores'')] \<and>
   trace (run [tc_world, tc_world_uninstalled] tc_loaded) =
     [ImportAttempt ''llama_cpp_cuda_tensorcores'', ModuleLoaded ''llama_cpp_cuda_tensorcores'',
      ImportAttempt ''llama_cpp_cuda_tensorcores'', ImportAttempt ''llama_cpp_cuda_tensorcores'']"
proof -
  have s1: "tc_loaded = snd (llama_cpp_lib tc_world init_process)"
    by (simp add: tc_loaded_def)
  have r: "fst (llama_cpp_lib tc_world init_process) = Inr (Some ''llama_cpp_cuda_tensorcores'')"
    by (simp add: tc_world_def eval_defs)
  then have h1: "llama_cpp_lib tc_world init_process =
      (Inr (Some ''llama_cpp_cuda_tensorcores''), tc_loaded)"
    using s1 by (simp add: prod_eq_iff)
  have na: "not_available_modules tc_loaded = {}"
    by (simp add: tc_loaded_def tc_world_def eval_defs)
  have h2: "\<forall>w' \<in> set [tc_world, tc_world_uninstalled].
              selected w' tc_loaded = Some ''llama_cpp_cuda_tensorcores''"
    by (simp add: selected_def na tc_world_def tc_world_uninstalled_def lib_names_def
        should_import_def mk_world_def)
  have t: "trace tc_loaded =
     [ImportAttempt ''llama_cpp_cuda_tensorcores'', ModuleLoaded ''llama_cpp_cuda_tensorcores'']"
    by (simp add: tc_loaded_def tc_world_def eval_defs)
  from same_variant_again [OF h1 h2] r t show ?thesis
    by (simp add: run_def)
qed

section \<open>Properties of \<open>eval_with_progress\<close>\<close>

lemma batch_slice:
  assumes "i < length tokens" and "0 < k"
  shows "py_slice tokens (int i) (min (int (length tokens)) (int i + k)) =
           take (nat k) (drop i tokens)"
proof -
  have "nat (min (int (length tokens)) (int i + k) - int i) = min (length tokens - i) (nat k)"
    using assms by auto
  moreover have "take (min (length tokens - i) (nat k)) (drop i tokens) = take (nat k) (drop i tokens)"
    by (cases "nat k \<le> length tokens - i") (simp_all add: min_def)
  ultimately show ?thesis
    using assms by (simp add: py_slice_def Let_def min_def)
qed

lemma np_setslice_fits:
  assumes "start + length vals \<le> length a"
  shows "np_setslice a start (start + length vals) vals =
           Inr (take start a @ vals @ drop (start + length vals) a)"
  using assms by (simp add: np_setslice_def Let_def min_def max_def)

lemma np_setslice_length:
  "np_setslice a start stop vals = Inr b \<Longrightarrow> length b = length a"
  by (auto simp: np_setslice_def Let_def min_def max_def split: if_splits)

lemma np_setrows_shape:
  "np_setrows a start stop vals = Inr b \<Longrightarrow>
     shape0 b = shape0 a \<and> shape1 b = shape1 a \<and> length (cells b) = length (cells a)"
  by (auto simp: np_setrows_def Let_def split: sum.splits dest: np_setslice_length)

lemma np_setrow_shape:
  "np_setrow a idx vals = Inr b \<Longrightarrow>
     shape0 b = shape0 a \<and> shape1 b = shape1 a \<and> length (cells b) = length (cells a)"
  by (auto simp: np_setrow_def Let_def split: sum.splits if_splits dest: np_setslice_length)

lemma to_intc_Inr:
  assumes "to_intc xs = Inr ws"
  shows "map sint ws = xs" and "length ws = length xs"
proof -
  from assms have r: "list_all (\<lambda>x. - (2 ^ 31) \<le> x \<and> x < 2 ^ 31) xs"
    and ws: "ws = map word_of_int xs"
    by (auto simp: to_intc_def split: if_splits)
  have "sint (word_of_int x :: 32 word) = x" if "x \<in> set xs" for x
  proof -
    from r that have "- (2 ^ 31) \<le> x" "x < 2 ^ 31" by (auto simp: list_all_iff)
    then show ?thesis by (simp add: sint_sbintrunc' signed_take_bit_int_eq_self)
  qed
  then show "map sint ws = xs" unfolding ws by (simp add: map_idI)
  show "length ws = length xs" unfolding ws by simp
qed

lemma to_intc_in_range:
  assumes "\<forall>x \<in> set xs. - (2 ^ 31) \<le> x \<and> x < 2 ^ 31"
  shows "to_intc xs = Inr (map word_of_int xs)"
  using assms by (simp add: to_intc_def list_all_iff)

lemma eval_batch_None:
  assumes "eval_batch nv tokens i s = (None, s')"
  defines "B \<equiv> py_slice tokens (int i) (min (int (length tokens)) (int i + n_batch s))"
  shows "\<exists>ws. to_intc B = Inr ws \<and>
              np_setslice (input_ids s) (n_tokens s) (n_tokens s + length B) ws =
                Inr (input_ids s')"
    and "n_tokens s' = n_tokens s + length B"
    and "decoded s' = decoded s @ [(n_tokens s, B)]"
    and "n_batch s' = n_batch s"
    and "logits_all s' = logits_all s"
    and "n_vocab s' = n_vocab s"
    and "shape0 (scores s') = shape0 (scores s)"
    and "shape1 (scores s') = shape1 (scores s)"
    and "length (cells (scores s')) = length (cells (scores s))"
  using assms(1) unfolding B_def eval_batch_def Let_def
  by (auto split: option.splits sum.splits if_splits dest: np_setrows_shape np_setrow_shape)

lemma eval_loop_Cons_None:
  "eval_loop nv tokens (i # rest) s = (None, s') \<Longrightarrow>
     \<exists>s1. eval_batch nv tokens i s = (None, s1) \<and> eval_loop nv tokens rest s1 = (None, s')"
  by (cases "eval_batch nv tokens i s") (auto split: option.splits)

lemma splice_take:
  assumes "a \<le> length xs"
  shows "take (a + length b) (take a xs @ b @ ys) = take a xs @ b"
  using assms by simp

lemma splice_drop:
  assumes "a + length b \<le> m" and "a \<le> length xs"
  shows "drop m (take a xs @ b @ drop (a + length b) xs) = drop m xs"
proof -
  have "length (take a xs) = a" using assms(2) by simp
  then have "drop m (take a xs @ b @ drop (a + length b) xs) =
        drop (m - a - length b) (drop (a + length b) xs)"
    using assms(1) by simp
  also have "\<dots> = drop m xs" using assms(1) by simp
  finally show ?thesis .
qed

lemma eval_loop_batches:
  assumes "0 < k" and "n = length tokens" and "n_batch s = int k"
    and "eval_loop nv tokens (range_from i n k) s = (None, s')"
  shows "n_tokens s' = n_tokens s + length (drop i tokens) \<and>
         (\<exists>new. decoded s' = decoded s @ new \<and> concat (map snd new) = drop i tokens)"
  using assms
proof (induction i n k arbitrary: s rule: range_from.induct)
  case (1 i n k)
  show ?case
  proof (cases "i < n")
    case False
    then have "range_from i n k = []" by (simp add: range_from.simps)
    with "1.prems" False show ?thesis by simp
  next
    case True
    let ?B = "take k (drop i tokens)"
    have rf: "range_from i n k = i # range_from (i + k) n k"
      using True "1.prems"(1) by (simp add: range_from.simps [of i])
    with "1.prems"(4) obtain s1 where
      b: "eval_batch nv tokens i s = (None, s1)"
      and l: "eval_loop nv tokens (range_from (i + k) n k) s1 = (None, s')"
      using eval_loop_Cons_None by metis
    have B: "py_slice tokens (int i) (min (int (length tokens)) (int i + n_batch s)) = ?B"
      using batch_slice [of i tokens "int k"] True "1.prems"(1,2,3) by simp
    note eb = eval_batch_None [OF b, unfolded B]
    have nb1: "n_batch s1 = int k" using eb(4) "1.prems"(3) by simp
    from "1.IH" [OF _ "1.prems"(1,2) nb1 l] True "1.prems"(1)
    obtain new where
      r1: "n_tokens s' = n_tokens s1 + length (drop (i + k) tokens)"
      and r3: "decoded s' = decoded s1 @ new" "concat (map snd new) = drop (i + k) tokens"
      by auto
    have c: "?B @ drop (i + k) tokens = drop i tokens"
    proof -
      have "take k (drop i tokens) @ drop k (drop i tokens) = drop i tokens"
        by (rule append_take_drop_id)
      then show ?thesis by (simp add: add.commute)
    qed
    have "length ?B + length (drop (i + k) tokens) = length (drop i tokens)"
      using arg_cong [OF c, of length] by simp
    with r1 eb(2) have n': "n_tokens s' = n_tokens s + length (drop i tokens)" by simp
    have d2: "decoded s' = decoded s @ ((n_tokens s, ?B) # new)"
      using r3(1) eb(3) by simp
    have "concat (map snd ((n_tokens s, ?B) # new)) = drop i tokens"
      using r3(2) c by simp
    with d2 have "\<exists>new. decoded s' = decoded s @ new \<and> concat (map snd new) = drop i tokens"
      by blast
    with n' show ?thesis by simp
  qed
qed

lemma eval_loop_tokens:
  assumes "0 < k" and "n = length tokens" and "n_batch s = int k"
    and "n_tokens s = p + min i n"
    and "p + n \<le> length (input_ids s)"
    and "eval_loop nv tokens (range_from i n k) s = (None, s')"
  shows "map sint (input_ids s') =
           take (p + min i n) (map sint (input_ids s)) @ drop i tokens @
           drop (p + n) (map sint (input_ids s))"
  using assms
proof (induction i n k arbitrary: s rule: range_from.induct)
  case (1 i n k)
  show ?case
  proof (cases "i < n")
    case False
    then have "range_from i n k = []" by (simp add: range_from.simps)
    with "1.prems" False show ?thesis by (simp add: min_def)
  next
    case True
    let ?B = "take k (drop i tokens)"
    let ?ids = "map sint (input_ids s)"
    have rf: "range_from i n k = i # range_from (i + k) n k"
      using True "1.prems"(1) by (simp add: range_from.simps [of i])
    with "1.prems"(6) obtain s1 where
      b: "eval_batch nv tokens i s = (None, s1)"
      and l: "eval_loop nv tokens (range_from (i + k) n k) s1 = (None, s')"
      using eval_loop_Cons_None by metis
    have B: "py_slice tokens (int i) (min (int (length tokens)) (int i + n_batch s)) = ?B"
      using batch_slice [of i tokens "int k"] True "1.prems"(1,2,3) by simp
    have lenB: "length ?B = min k (n - i)"
      using "1.prems"(2) by (simp add: min.commute)
    have pi: "n_tokens s = p + i" using True "1.prems"(4) by simp
    have fit: "(p + i) + length ?B \<le> length (input_ids s)"
      unfolding lenB using True "1.prems"(5) by arith
    note eb = eval_batch_None [OF b, unfolded B]
    from eb(1) obtain ws where ws: "to_intc ?B = Inr ws"
      and st: "np_setslice (input_ids s) (n_tokens s) (n_tokens s + length ?B) ws =
                 Inr (input_ids s1)"
      by blast
    note w = to_intc_Inr [OF ws]
    have fit': "(p + i) + length ws \<le> length (input_ids s)" using fit w(2) by simp
    have "input_ids s1 =
            take (p + i) (input_ids s) @ ws @ drop ((p + i) + length ws) (input_ids s)"
      using st np_setslice_fits [OF fit'] pi w(2) by simp
    then have "map sint (input_ids s1) =
            take (p + i) ?ids @ map sint ws @ drop ((p + i) + length ws) ?ids"
      by (simp add: take_map drop_map)
    then have ids1: "map sint (input_ids s1) =
            take (p + i) ?ids @ ?B @ drop ((p + i) + length ?B) ?ids"
      using w by simp
    have nt1: "n_tokens s1 = p + min (i + k) n"
    proof -
      have "n_tokens s1 = p + i + min k (n - i)" using eb(2) pi lenB by simp
      then show ?thesis using True by arith
    qed
    have len1: "p + n \<le> length (input_ids s1)"
      using np_setslice_length [OF st] "1.prems"(5) by simp
    have nb1: "n_batch s1 = int k" using eb(4) "1.prems"(3) by simp
    from "1.IH" [OF _ "1.prems"(1,2) nb1 nt1 len1 l] True "1.prems"(1)
    have r2: "map sint (input_ids s') =
                 take (p + min (i + k) n) (map sint (input_ids s1)) @ drop (i + k) tokens @
                 drop (p + n) (map sint (input_ids s1))"
      by auto
    have mn: "p + min (i + k) n = (p + i) + length ?B"
      unfolding lenB using True by arith
    have pil: "p + i \<le> length ?ids" using fit by simp
    have t: "take (p + min (i + k) n) (map sint (input_ids s1)) = take (p + i) ?ids @ ?B"
      unfolding mn ids1 using pil by (rule splice_take)
    have d: "drop (p + n) (map sint (input_ids s1)) = drop (p + n) ?ids"
      unfolding ids1
    proof (rule splice_drop)
      show "p + i + length ?B \<le> p + n" unfolding lenB using True by arith
      show "p + i \<le> length ?ids" by (rule pil)
    qed
    have c: "?B @ drop (i + k) tokens = drop i tokens"
    proof -
      have "take k (drop i tokens) @ drop k (drop i tokens) = drop i tokens"
        by (rule append_take_drop_id)
      then show ?thesis by (simp add: add.commute)
    qed
    have "map sint (input_ids s') =
            take (p + i) ?ids @ (?B @ drop (i + k) tokens) @ drop (p + n) ?ids"
      using r2 t d by simp
    then show ?thesis using c True by (simp add: min_def)
  qed
qed

lemma np_setrows_fits:
  assumes "length (cells a) = shape0 a * shape1 a"
    and "start + m \<le> shape0 a" and "length vals = m * shape1 a"
  shows "\<exists>b. np_setrows a start (start + m) vals = Inr b"
proof -
  have lo: "min start (shape0 a) = start" using assms(2) by simp
  have hi: "max start (min (start + m) (shape0 a)) = start + m" using assms(2) by simp
  have "start * shape1 a + length vals \<le> length (cells a)"
  proof -
    have "start * shape1 a + m * shape1 a = (start + m) * shape1 a"
      by (simp add: add_mult_distrib)
    also have "\<dots> \<le> shape0 a * shape1 a" using assms(2) by (rule mult_le_mono1)
    finally show ?thesis using assms(1,3) by simp
  qed
  from np_setslice_fits [OF this]
  have "np_setslice (cells a) (start * shape1 a) ((start + m) * shape1 a) vals =
          Inr (take (start * shape1 a) (cells a) @ vals @
               drop (start * shape1 a + length vals) (cells a))"
    using assms(3) by (simp add: add_mult_distrib)
  then show ?thesis by (simp add: np_setrows_def lo hi)
qed

lemma np_setrow_fits:
  assumes "length (cells a) = shape0 a * shape1 a"
    and "0 \<le> idx" and "idx < int (shape0 a)" and "length vals = shape1 a"
  shows "\<exists>b. np_setrow a idx vals = Inr b"
proof -
  let ?r = "nat idx"
  have r: "?r + 1 \<le> shape0 a" using assms(2,3) by simp
  have "?r * shape1 a + length vals \<le> length (cells a)"
  proof -
    have "?r * shape1 a + shape1 a = (?r + 1) * shape1 a" by simp
    also have "\<dots> \<le> shape0 a * shape1 a" using r by (rule mult_le_mono1)
    finally show ?thesis using assms(1,4) by simp
  qed
  from np_setslice_fits [OF this]
  have "np_setslice (cells a) (?r * shape1 a) (?r * shape1 a + shape1 a) vals =
          Inr (take (?r * shape1 a) (cells a) @ vals @
               drop (?r * shape1 a + length vals) (cells a))"
    using assms(4) by simp
  then show ?thesis using assms(2,3) by (simp add: np_setrow_def Let_def)
qed

lemma eval_batch_returns:
  assumes "decode_error nv (decoded s @ [(n_tokens s, B)]) = None"
    and B: "B = py_slice tokens (int i) (min (int (length tokens)) (int i + n_batch s))"
    and "B \<noteq> []"
    and "\<forall>x \<in> set B. - (2 ^ 31) \<le> x \<and> x < 2 ^ 31"
    and "n_tokens s + length B \<le> length (input_ids s)"
    and "scores_fit s (length B)"
  shows "fst (eval_batch nv tokens i s) = None"
proof -
  let ?ws = "map word_of_int B :: 32 word list"
  have cv: "to_intc B = Inr ?ws" using assms(4) by (rule to_intc_in_range)
  have "n_tokens s + length ?ws \<le> length (input_ids s)" using assms(5) by simp
  from np_setslice_fits [OF this]
  have ids: "np_setslice (input_ids s) (n_tokens s) (n_tokens s + length B) ?ws =
      Inr (take (n_tokens s) (input_ids s) @ ?ws @ drop (n_tokens s + length B) (input_ids s))"
    by simp
  have wf: "length (cells (scores s)) = shape0 (scores s) * shape1 (scores s)"
    and sh: "shape1 (scores s) = n_vocab s"
    using assms(6) by (simp_all add: scores_fit_def)
  show ?thesis
  proof (cases "logits_all s")
    case True
    then have "n_tokens s + length B \<le> shape0 (scores s)"
      using assms(6) by (simp add: scores_fit_def)
    from np_setrows_fits [OF wf this, of "as_array (get_logits nv (decoded s @ [(n_tokens s, B)])) (length B * n_vocab s)"]
    obtain b where "np_setrows (scores s) (n_tokens s) (n_tokens s + length B)
        (as_array (get_logits nv (decoded s @ [(n_tokens s, B)])) (length B * n_vocab s)) = Inr b"
      using sh by (auto simp: as_array_def)
    with True assms(1) ids cv show ?thesis
      unfolding eval_batch_def B [symmetric] Let_def by simp
  next
    case False
    then have pos: "0 < shape0 (scores s)" using assms(6) by (simp add: scores_fit_def)
    let ?idx = "min (int (n_tokens s) + int (length B) - 1) (int (shape0 (scores s)) - 1)"
    have "1 \<le> int (length B)" using assms(3) by (cases B) simp_all
    then have i0: "0 \<le> ?idx" using pos by linarith
    have i1: "?idx < int (shape0 (scores s))" by simp
    from np_setrow_fits [OF wf i0 i1, of "as_array (get_logits nv (decoded s @ [(n_tokens s, B)])) (n_vocab s)"]
    obtain b where "np_setrow (scores s) ?idx
        (as_array (get_logits nv (decoded s @ [(n_tokens s, B)])) (n_vocab s)) = Inr b"
      using sh by (auto simp: as_array_def)
    with False assms(1) ids cv show ?thesis
      unfolding eval_batch_def B [symmetric] Let_def by simp
  qed
qed

lemma eval_loop_returns:
  assumes "0 < k" and "n = length tokens" and "n_batch s = int k"
    and "n_tokens s = p + min i n"
    and "p + n \<le> length (input_ids s)"
    and "\<forall>h. decode_error nv h = None"
    and "length (cells (scores s)) = shape0 (scores s) * shape1 (scores s)"
    and "shape1 (scores s) = n_vocab s"
    and "if logits_all s then p + n \<le> shape0 (scores s) else 0 < shape0 (scores s)"
    and "\<forall>x \<in> set tokens. - (2 ^ 31) \<le> x \<and> x < 2 ^ 31"
  shows "fst (eval_loop nv tokens (range_from i n k) s) = None"
  using assms
proof (induction i n k arbitrary: s rule: range_from.induct)
  case (1 i n k)
  show ?case
  proof (cases "i < n")
    case False
    then have "range_from i n k = []" by (simp add: range_from.simps)
    then show ?thesis by simp
  next
    case True
    let ?B = "take k (drop i tokens)"
    have rf: "range_from i n k = i # range_from (i + k) n k"
      using True "1.prems"(1) by (simp add: range_from.simps [of i])
    have B: "?B = py_slice tokens (int i) (min (int (length tokens)) (int i + n_batch s))"
      using batch_slice [of i tokens "int k"] True "1.prems"(1,2,3) by simp
    have lenB: "length ?B = min k (n - i)"
      using "1.prems"(2) by (simp add: min.commute)
    have ne: "?B \<noteq> []"
    proof -
      have "0 < length ?B" unfolding lenB using True "1.prems"(1) by arith
      then show ?thesis by auto
    qed
    have rng: "\<forall>x \<in> set ?B. - (2 ^ 31) \<le> x \<and> x < 2 ^ 31"
    proof
      fix x assume "x \<in> set ?B"
      then have "x \<in> set tokens" by (meson in_set_takeD in_set_dropD)
      with "1.prems"(10) show "- (2 ^ 31) \<le> x \<and> x < 2 ^ 31" by blast
    qed
    have pi: "n_tokens s = p + i" using True "1.prems"(4) by simp
    have fit: "n_tokens s + length ?B \<le> length (input_ids s)"
      unfolding lenB pi using True "1.prems"(5) by arith
    have sf: "scores_fit s (length ?B)"
    proof (cases "logits_all s")
      case la: True
      then have "p + n \<le> shape0 (scores s)" using "1.prems"(9) by simp
      then have "n_tokens s + length ?B \<le> shape0 (scores s)"
        unfolding lenB pi using True by arith
      with la "1.prems"(7,8) show ?thesis by (simp add: scores_fit_def)
    next
      case False
      with "1.prems"(7,8,9) show ?thesis by (simp add: scores_fit_def)
    qed
    have dec: "decode_error nv (decoded s @ [(n_tokens s, ?B)]) = None"
      using "1.prems"(6) by simp
    from eval_batch_returns [OF dec B ne rng fit sf]
    obtain s1 where b: "eval_batch nv tokens i s = (None, s1)"
      by (cases "eval_batch nv tokens i s") auto
    note eb = eval_batch_None [OF b, folded B]
    from eb(1) obtain ws where
      st: "np_setslice (input_ids s) (n_tokens s) (n_tokens s + length ?B) ws = Inr (input_ids s1)"
      by blast
    have nt1: "n_tokens s1 = p + min (i + k) n"
    proof -
      have "n_tokens s1 = p + i + min k (n - i)" using eb(2) pi lenB by simp
      then show ?thesis using True by arith
    qed
    have len1: "p + n \<le> length (input_ids s1)"
      using np_setslice_length [OF st] "1.prems"(5) by simp
    have nb1: "n_batch s1 = int k" using eb(4) "1.prems"(3) by simp
    have wf1: "length (cells (scores s1)) = shape0 (scores s1) * shape1 (scores s1)"
      using eb(7,8,9) "1.prems"(7) by simp
    have sh1: "shape1 (scores s1) = n_vocab s1" using eb(6,8) "1.prems"(8) by simp
    have c1: "if logits_all s1 then p + n \<le> shape0 (scores s1) else 0 < shape0 (scores s1)"
      using eb(5,7) "1.prems"(9) by simp
    have "fst (eval_loop nv tokens (range_from (i + k) n k) s1) = None"
      using "1.IH" [OF _ "1.prems"(1,2) nb1 nt1 len1 "1.prems"(6) wf1 sh1 c1 "1.prems"(10)]
        True "1.prems"(1)
      by simp
    with rf b show ?thesis by simp
  qed
qed

lemma py_slice_written:
  assumes "p + length xs \<le> length a"
  shows "py_slice (take p a @ xs @ drop (p + length xs) a) (int p) (int p + int (length xs)) = xs"
proof -
  have p: "p \<le> length a" using assms by simp
  have len: "length (take p a @ xs @ drop (p + length xs) a) = length a"
    using assms by simp
  have "drop p (take p a @ xs @ drop (p + length xs) a) = xs @ drop (p + length xs) a"
    using p by simp
  then show ?thesis
    unfolding py_slice_def len Let_def using assms by simp
qed

lemma py_slice_map: "py_slice (map f xs) a b = map f (py_slice xs a b)"
  by (simp add: py_slice_def Let_def take_map drop_map)

text \<open>
  Claim C9, as amended. Let the batch size be positive. Whenever the call returns normally,
  the batches handed to the native context, concatenated in order, are the input tokens,
  and \<open>n_tokens\<close> has grown by \<open>len(tokens)\<close>; and when \<open>input_ids\<close> has room for the tokens
  after position \<open>p = n_tokens\<close>, \<open>input_ids[p : p + len(tokens)]\<close> holds the input tokens.
  The call does return normally when no native \<open>decode\<close> fails, every token fits \<open>int32\<close>,
  \<open>input_ids\<close> has room, and the \<open>scores\<close> array has the rows and columns the writes need.
\<close>

theorem eval_with_progress_tokens:
  assumes "0 < n_batch s"
  shows "(\<forall>s'. eval_with_progress nv tokens s = (None, s') \<longrightarrow>
            take (length (decoded s)) (decoded s') = decoded s \<and>
            concat (map snd (drop (length (decoded s)) (decoded s'))) = tokens \<and>
            n_tokens s' = n_tokens s + length tokens \<and>
            (n_tokens s + length tokens \<le> length (input_ids s) \<longrightarrow>
               map sint (py_slice (input_ids s') (int (n_tokens s))
                           (int (n_tokens s) + int (length tokens))) = tokens)) \<and>
         ((\<forall>h. decode_error nv h = None) \<and>
          (\<forall>x \<in> set tokens. - (2 ^ 31) \<le> x \<and> x < 2 ^ 31) \<and>
          n_tokens s + length tokens \<le> length (input_ids s) \<and>
          scores_fit s (length tokens) \<longrightarrow>
            fst (eval_with_progress nv tokens s) = None)"
proof -
  let ?k = "nat (n_batch s)"
  let ?n = "length tokens"
  let ?p = "n_tokens s"
  have k: "0 < ?k" "n_batch s = int ?k" using assms(1) by simp_all
  have ev: "eval_with_progress nv tokens s = eval_loop nv tokens (range_from 0 ?n ?k) s"
    using assms(1) by (simp add: eval_with_progress_def py_range_def)
  have p0: "?p = ?p + min 0 ?n" by simp
  have a: "take (length (decoded s)) (decoded s') = decoded s \<and>
           concat (map snd (drop (length (decoded s)) (decoded s'))) = tokens \<and>
           n_tokens s' = ?p + ?n \<and>
           (?p + ?n \<le> length (input_ids s) \<longrightarrow>
              map sint (py_slice (input_ids s') (int ?p) (int ?p + int ?n)) = tokens)"
    if "eval_with_progress nv tokens s = (None, s')" for s'
  proof -
    from that ev have l: "eval_loop nv tokens (range_from 0 ?n ?k) s = (None, s')" by simp
    from eval_loop_batches [OF k(1) refl k(2) l]
    obtain new where nt: "n_tokens s' = ?p + ?n"
      and d: "decoded s' = decoded s @ new" "concat (map snd new) = tokens"
      by auto
    have "map sint (py_slice (input_ids s') (int ?p) (int ?p + int ?n)) = tokens"
      if cap: "?p + ?n \<le> length (input_ids s)"
    proof -
      let ?I = "map sint (input_ids s)"
      from eval_loop_tokens [OF k(1) refl k(2) p0 cap l]
      have ids: "map sint (input_ids s') = take ?p ?I @ tokens @ drop (?p + ?n) ?I" by simp
      have "?p + ?n \<le> length ?I" using cap by simp
      then have "py_slice (take ?p ?I @ tokens @ drop (?p + ?n) ?I) (int ?p) (int ?p + int ?n)
                   = tokens"
        by (rule py_slice_written)
      then show ?thesis using ids by (simp add: py_slice_map [symmetric])
    qed
    with nt d show ?thesis by simp
  qed
  have b: "fst (eval_with_progress nv tokens s) = None"
    if "\<forall>h. decode_error nv h = None" "\<forall>x \<in> set tokens. - (2 ^ 31) \<le> x \<and> x < 2 ^ 31"
      "?p + ?n \<le> length (input_ids s)" "scores_fit s ?n"
  proof -
    from that(4) have wf: "length (cells (scores s)) = shape0 (scores s) * shape1 (scores s)"
      and sh: "shape1 (scores s) = n_vocab s"
      and c: "if logits_all s then ?p + ?n \<le> shape0 (scores s) else 0 < shape0 (scores s)"
      by (simp_all add: scores_fit_def)
    from eval_loop_returns [OF k(1) refl k(2) p0 that(3) that(1) wf sh c that(2)] ev
    show ?thesis by simp
  qed
  from a b show ?thesis by blast
qed

lemmas eval_run_defs =
  eval_with_progress_def py_range_def eval_batch_def py_slice_def np_setslice_def to_intc_def
  np_setrow_def np_setrows_def as_array_def quiet_native_def small_llama_def full_llama_def
  Let_def

lemma range_from_3_2: "range_from 0 (Suc (Suc (Suc 0))) 2 = [0, 2]"
  by (simp add: range_from.simps)

lemma range_from_1_2: "range_from 0 (Suc 0) 2 = [0]"
  by (simp add: range_from.simps)

text \<open>
  The claim as stated fails in two ways. When \<open>input_ids\<close> is full, the one-token batch is
  broadcast into the empty slice \<open>input_ids[6:7]\<close>: nothing is stored, the call returns
  normally with \<open>n_tokens = 7\<close>, and \<open>input_ids[6:7]\<close> is empty instead of the token. And a
  token outside \<open>int32\<close> makes the store raise \<open>OverflowError\<close>, with \<open>n_tokens\<close> unchanged.
\<close>

theorem eval_with_progress_tokens_counterexample:
  "[7] \<noteq> ([] :: int list) \<and> 0 < n_batch full_llama \<and>
   fst (eval_with_progress quiet_native [7] full_llama) = None \<and>
   n_tokens full_llama = 6 \<and>
   input_ids (snd (eval_with_progress quiet_native [7] full_llama)) = [9, 0, 0, 0, 0, 0] \<and>
   map sint (py_slice (input_ids (snd (eval_with_progress quiet_native [7] full_llama))) 6 (6 + 1))
     \<noteq> [7] \<and>
   fst (eval_with_progress quiet_native [2147483648] small_llama) =
     Some (OverflowError ''Python integer out of bounds for int32'') \<and>
   n_tokens (snd (eval_with_progress quiet_native [2147483648] small_llama)) =
     n_tokens small_llama"
  by (simp add: eval_run_defs range_from_1_2)

theorem eval_with_progress_tokens_witness:
  "eval_with_progress quiet_native [5, 6, 7] small_llama =
     (None,
      \<lparr>n_tokens = 4, n_batch = 2, logits_all = False, n_vocab = 2,
       input_ids = [9, 5, 6, 7, 0, 0],
       scores = \<lparr>shape0 = 2, shape1 = 2, cells = [0, 0, 200, 201]\<rparr>,
       last_updated_index = 1, decoded = [(1, [5, 6]), (3, [7])]\<rparr>) \<and>
   map sint (py_slice [9, 5, 6, 7, 0, 0 :: 32 word] 1 4) = [5, 6, 7]"
proof -
  have h1: "0 < n_batch small_llama" by (simp add: small_llama_def)
  have h2: "n_tokens small_llama + length [5, 6, 7 :: int] \<le> length (input_ids small_llama)"
    by (simp add: small_llama_def)
  have r: "eval_with_progress quiet_native [5, 6, 7] small_llama =
     (None,
      \<lparr>n_tokens = 4, n_batch = 2, logits_all = False, n_vocab = 2,
       input_ids = [9, 5, 6, 7, 0, 0],
       scores = \<lparr>shape0 = 2, shape1 = 2, cells = [0, 0, 200, 201]\<rparr>,
       last_updated_index = 1, decoded = [(1, [5, 6]), (3, [7])]\<rparr>)"
    by (simp add: eval_run_defs range_from_3_2 upt_rec)
  have n: "n_tokens small_llama = 1" by (simp add: small_llama_def)
  from eval_with_progress_tokens [OF h1, of quiet_native "[5, 6, 7]"] r n h2 show ?thesis
    by simp
qed

lemma np_setrow_fits_eq:
  assumes "length (cells a) = shape0 a * shape1 a"
    and "0 \<le> idx" and "idx < int (shape0 a)" and "length vals = shape1 a"
  shows "np_setrow a idx vals =
           Inr (a\<lparr>cells := take (nat idx * shape1 a) (cells a) @ vals @
                            drop (nat idx * shape1 a + shape1 a) (cells a)\<rparr>)"
proof -
  let ?r = "nat idx"
  have r: "?r + 1 \<le> shape0 a" using assms(2,3) by simp
  have "?r * shape1 a + length vals \<le> length (cells a)"
  proof -
    have "?r * shape1 a + shape1 a = (?r + 1) * shape1 a" by simp
    also have "\<dots> \<le> shape0 a * shape1 a" using r by (rule mult_le_mono1)
    finally show ?thesis using assms(1,4) by simp
  qed
  from np_setslice_fits [OF this]
  have "np_setslice (cells a) (?r * shape1 a) (?r * shape1 a + shape1 a) vals =
          Inr (take (?r * shape1 a) (cells a) @ vals @
               drop (?r * shape1 a + length vals) (cells a))"
    using assms(4) by simp
  then show ?thesis using assms(2,3,4) by (simp add: np_setrow_def Let_def)
qed

text \<open>
  Claim C10, as amended. Let \<open>logits_all\<close> be disabled and let \<open>scores\<close> have at least one
  row, as many cells as its shape says, and \<open>n_vocab\<close> columns. Every iteration of the loop
  that reaches the write (a start index inside the tokens, a positive batch size, \<open>decode\<close>
  and the store into \<open>input_ids\<close> succeed) completes, and the row it writes is
  \<open>min(n_past + n_tokens - 1, scores.shape[0] - 1)\<close>: a valid row, also when the token
  position lies beyond the last row. The logits go into that row, the other rows stay, and
  \<open>last_updated_index\<close> is that row.
\<close>

theorem last_token_index_bounds:
  assumes "\<not> logits_all s" and "i < length tokens" and "0 < n_batch s"
    and B: "B = py_slice tokens (int i) (min (int (length tokens)) (int i + n_batch s))"
    and "decode_error nv (decoded s @ [(n_tokens s, B)]) = None"
    and "to_intc B = Inr ws"
    and "np_setslice (input_ids s) (n_tokens s) (n_tokens s + length B) ws = Inr ids"
    and "0 < shape0 (scores s)"
    and "length (cells (scores s)) = shape0 (scores s) * shape1 (scores s)"
    and "shape1 (scores s) = n_vocab s"
  shows "\<exists>s' idx.
           eval_batch nv tokens i s = (None, s') \<and>
           idx = min (int (n_tokens s) + int (length B) - 1) (int (shape0 (scores s)) - 1) \<and>
           0 \<le> idx \<and> idx < int (shape0 (scores s)) \<and>
           last_updated_index s' = idx \<and>
           scores s' =
             (scores s)\<lparr>cells :=
                take (nat idx * n_vocab s) (cells (scores s)) @
                as_array (get_logits nv (decoded s @ [(n_tokens s, B)])) (n_vocab s) @
                drop (nat idx * n_vocab s + n_vocab s) (cells (scores s))\<rparr> \<and>
           input_ids s' = ids \<and> n_tokens s' = n_tokens s + length B"
proof -
  let ?idx = "min (int (n_tokens s) + int (length B) - 1) (int (shape0 (scores s)) - 1)"
  let ?logits = "as_array (get_logits nv (decoded s @ [(n_tokens s, B)])) (n_vocab s)"
  have "B = take (nat (n_batch s)) (drop i tokens)"
    unfolding B using assms(2,3) by (rule batch_slice)
  then have "length B = min (length tokens - i) (nat (n_batch s))" by simp
  moreover have "1 \<le> length tokens - i" "1 \<le> nat (n_batch s)"
    using assms(2,3) by simp_all
  ultimately have "1 \<le> length B" by (metis min_def)
  then have i0: "0 \<le> ?idx" using assms(8) by linarith
  have i1: "?idx < int (shape0 (scores s))" by simp
  have "length ?logits = shape1 (scores s)" using assms(10) by (simp add: as_array_def)
  from np_setrow_fits_eq [OF assms(9) i0 i1 this]
  have w: "np_setrow (scores s) ?idx ?logits =
      Inr ((scores s)\<lparr>cells :=
                take (nat ?idx * n_vocab s) (cells (scores s)) @ ?logits @
                drop (nat ?idx * n_vocab s + n_vocab s) (cells (scores s))\<rparr>)"
    using assms(10) by simp
  have "eval_batch nv tokens i s =
      (None,
       s\<lparr>decoded := decoded s @ [(n_tokens s, B)], input_ids := ids,
         scores := (scores s)\<lparr>cells :=
                take (nat ?idx * n_vocab s) (cells (scores s)) @ ?logits @
                drop (nat ?idx * n_vocab s + n_vocab s) (cells (scores s))\<rparr>,
         last_updated_index := ?idx,
         n_tokens := n_tokens s + length B\<rparr>)"
    using assms(1,5,6,7) w unfolding eval_batch_def B [symmetric] Let_def by simp
  with i0 i1 show ?thesis by simp
qed

text \<open>
  The claim as stated fails for a \<open>scores\<close> array without rows: the index is
  \<open>min(n_past + n_tokens - 1, -1) = -1\<close>, which is outside the array, and the write raises
  \<open>IndexError\<close>.
\<close>

theorem last_token_index_bounds_counterexample:
  "\<not> logits_all rowless_llama \<and> 0 < n_batch rowless_llama \<and>
   shape0 (scores rowless_llama) = 0 \<and>
   min (int (n_tokens rowless_llama) + int (length [5 :: int]) - 1)
       (int (shape0 (scores rowless_llama)) - 1) = - 1 \<and>
   fst (eval_batch quiet_native [5] 0 rowless_llama) =
     Some (IndexError ''index is out of bounds for axis 0'')"
  by (simp add: eval_run_defs rowless_llama_def)

theorem last_token_index_bounds_witness:
  "eval_batch quiet_native [5, 6, 7] 0 late_llama =
     (None,
      \<lparr>n_tokens = 6, n_batch = 2, logits_all = False, n_vocab = 2,
       input_ids = [9, 0, 0, 0, 5, 6],
       scores = \<lparr>shape0 = 2, shape1 = 2, cells = [0, 0, 100, 101]\<rparr>,
       last_updated_index = 1, decoded = [(4, [5, 6])]\<rparr>) \<and>
   min (int (n_tokens late_llama) + int (length [5, 6 :: int]) - 1)
       (int (shape0 (scores late_llama)) - 1) = 1 \<and>
   int (shape0 (scores late_llama)) - 1 < int (n_tokens late_llama) + int (length [5, 6 :: int]) - 1"
proof -
  have h1: "\<not> logits_all late_llama" by (simp add: late_llama_def small_llama_def)
  have h2: "0 < length [5, 6, 7 :: int]" by simp
  have h3: "0 < n_batch late_llama" by (simp add: late_llama_def small_llama_def)
  have h4: "[5, 6] = py_slice [5, 6, 7 :: int] (int 0)
              (min (int (length [5, 6, 7 :: int])) (int 0 + n_batch late_llama))"
    by (simp add: py_slice_def late_llama_def small_llama_def)
  have h5: "decode_error quiet_native (decoded late_llama @ [(n_tokens late_llama, [5, 6])]) = None"
    by (simp add: quiet_native_def)
  have h6: "to_intc [5, 6] = Inr [5, 6]" by (simp add: to_intc_def)
  have h7: "np_setslice (input_ids late_llama) (n_tokens late_llama)
              (n_tokens late_llama + length [5, 6 :: int]) [5, 6] = Inr [9, 0, 0, 0, 5, 6]"
    by (simp add: np_setslice_def late_llama_def small_llama_def)
  have h8: "0 < shape0 (scores late_llama)" by (simp add: late_llama_def small_llama_def)
  have h9: "length (cells (scores late_llama)) =
              shape0 (scores late_llama) * shape1 (scores late_llama)"
    by (simp add: late_llama_def small_llama_def)
  have h10: "shape1 (scores late_llama) = n_vocab late_llama"
    by (simp add: late_llama_def small_llama_def)
  have r: "eval_batch quiet_native [5, 6, 7] 0 late_llama =
     (None,
      \<lparr>n_tokens = 6, n_batch = 2, logits_all = False, n_vocab = 2,
       input_ids = [9, 0, 0, 0, 5, 6],
       scores = \<lparr>shape0 = 2, shape1 = 2, cells = [0, 0, 100, 101]\<rparr>,
       last_updated_index = 1, decoded = [(4, [5, 6])]\<rparr>)"
    by (simp add: eval_run_defs late_llama_def upt_rec)
  from last_token_index_bounds [OF h1 h2 h3 h4 h5 h6 h7 h8 h9 h10] r show ?thesis
    by (simp add: late_llama_def small_llama_def)
qed

end
